theory Spec2Isabelle
  imports Complex_Main
begin

section \<open>Basis constants and mesh connectivity\<close>

text \<open>
  Modelled from the spec: the compile-time constants of \<open>Basis\<close> (\<open>nbasis\<close>, \<open>ndof\<close>,
  \<open>get_ndof<basis>\<close>, \<open>get_dof_offset<basis>\<close>; the header that declares them is not among
  the sources). A basis is the ordered list of its basis groups, each given by its number
  of local degrees of freedom; the offset of a group is the number of degrees of freedom
  of the groups before it, and \<open>ndof\<close> is the total. \<open>get_ndof\<close> and \<open>get_dof_offset\<close> are
  used at basis groups below \<open>nbasis\<close> only.
\<close>

type_synonym basis = "nat list"

definition nbasis :: "basis \<Rightarrow> nat" where
  "nbasis B = length B"

definition get_ndof :: "basis \<Rightarrow> nat \<Rightarrow> nat" where
  "get_ndof B b = B ! b"

definition get_dof_offset :: "basis \<Rightarrow> nat \<Rightarrow> nat" where
  "get_dof_offset B b = sum_list (take b B)"

definition ndof :: "basis \<Rightarrow> nat" where
  "ndof B = sum_list B"

text \<open>
  The local degrees of freedom of an element, as (basis group, index in the group), in the
  order of the loops that visit them, and the position of each in the element's buffer.
\<close>

definition local_dofs :: "basis \<Rightarrow> (nat \<times> nat) list" where
  "local_dofs B = concat (map (\<lambda>b. map (Pair b) [0..<get_ndof B b]) [0..<nbasis B])"

definition local_index :: "basis \<Rightarrow> nat \<times> nat \<Rightarrow> nat" where
  "local_index B = (\<lambda>(b, i). i + get_dof_offset B b)"

text \<open>
  \<open>ElementMesh<Basis>\<close> is read through three members only: the number of elements, the
  global index of local degree of freedom \<open>i\<close> of basis group \<open>b\<close> of element \<open>elem\<close>, and
  its orientation sign (an \<open>int\<close> in the source).
\<close>

record ElementMesh =
  get_num_elements :: nat
  get_global_dof :: "nat \<Rightarrow> nat \<Rightarrow> nat \<Rightarrow> nat"
  get_global_dof_sign :: "nat \<Rightarrow> nat \<Rightarrow> nat \<Rightarrow> int"

text \<open>
  The global vector \<open>VecType& vec\<close> is a template parameter used only through
  \<open>operator[]\<close>: a store from global indices to values. The numeric type \<open>T\<close> is a
  commutative ring, the exact arithmetic that the floating-point types round; an \<open>int\<close>
  sign enters a product through \<open>of_int\<close>.
\<close>

type_synonym 'a vec = "nat \<Rightarrow> 'a"

text \<open>Sign and global index of a local degree of freedom, and the global indices of an
  element in local order.\<close>

definition dof_sign :: "ElementMesh \<Rightarrow> nat \<Rightarrow> nat \<times> nat \<Rightarrow> int" where
  "dof_sign m elem = (\<lambda>(b, i). get_global_dof_sign m elem b i)"

definition dof_global :: "ElementMesh \<Rightarrow> nat \<Rightarrow> nat \<times> nat \<Rightarrow> nat" where
  "dof_global m elem = (\<lambda>(b, i). get_global_dof m elem b i)"

definition element_dofs :: "ElementMesh \<Rightarrow> basis \<Rightarrow> nat \<Rightarrow> nat list" where
  "element_dofs m B elem = map (dof_global m elem) (local_dofs B)"

text \<open>The mesh contract of the orientation sign: plus or minus one on every local degree
  of freedom of the element.\<close>

definition unit_signs :: "ElementMesh \<Rightarrow> basis \<Rightarrow> nat \<Rightarrow> bool" where
  "unit_signs m B elem = list_all (\<lambda>p. dof_sign m elem p = 1 \<or> dof_sign m elem p = - 1) (local_dofs B)"

section \<open>ElementVector_Serial\<close>

text \<open>\<open>FEDof(elem, elem_vec)\<close>: \<open>std::fill(dof, dof + Basis::ndof, T(0.0))\<close>. The buffer is
  the list of its \<open>Basis::ndof\<close> values; the positions \<open>i + get_dof_offset<basis>\<close> that the
  loops below read and write are the positions \<open>0 .. ndof - 1\<close>, each once.\<close>

definition FEDof :: "basis \<Rightarrow> nat \<Rightarrow> 'a::zero list" where
  "FEDof B elem = replicate (ndof B) 0"

datatype ELEM_VALS_OP = GET | ADD | SET

text \<open>One iteration of the loop over \<open>i\<close> in \<open>operate_element_values_<op, basis>\<close>.\<close>

definition operate_dof ::
  "ELEM_VALS_OP \<Rightarrow> ElementMesh \<Rightarrow> basis \<Rightarrow> nat \<Rightarrow> nat \<Rightarrow> nat \<Rightarrow>
     'a::comm_ring_1 vec \<times> 'a list \<Rightarrow> 'a vec \<times> 'a list" where
  "operate_dof op m B elem b i = (\<lambda>(v, dof).
     let sign = get_global_dof_sign m elem b i;
         dof_index = get_global_dof m elem b i;
         k = i + get_dof_offset B b
     in case op of
          GET \<Rightarrow> (v, dof[k := of_int sign * v dof_index])
        | ADD \<Rightarrow> (v(dof_index := v dof_index + of_int sign * dof ! k), dof)
        | SET \<Rightarrow> (v(dof_index := of_int sign * dof ! k), dof))"

function operate_element_values ::
  "ELEM_VALS_OP \<Rightarrow> ElementMesh \<Rightarrow> basis \<Rightarrow> nat \<Rightarrow> nat \<Rightarrow>
     'a::comm_ring_1 vec \<times> 'a list \<Rightarrow> 'a vec \<times> 'a list" where
  "operate_element_values op m B elem b st =
     (let st' = fold (operate_dof op m B elem b) [0..<get_ndof B b] st
      in if b + 1 < nbasis B then operate_element_values op m B elem (b + 1) st' else st')"
  by pat_completeness auto
termination
  by (relation "measure (\<lambda>(op, m, B, elem, b, st). nbasis B - b)") auto

declare operate_element_values.simps [simp del]

definition get_element_values ::
  "ElementMesh \<Rightarrow> basis \<Rightarrow> nat \<Rightarrow> 'a::comm_ring_1 vec \<times> 'a list \<Rightarrow> 'a vec \<times> 'a list" where
  "get_element_values m B elem st =
     (if nbasis B > 0 then operate_element_values GET m B elem 0 st else st)"

definition add_element_values ::
  "ElementMesh \<Rightarrow> basis \<Rightarrow> nat \<Rightarrow> 'a::comm_ring_1 vec \<times> 'a list \<Rightarrow> 'a vec \<times> 'a list" where
  "add_element_values m B elem st =
     (if nbasis B > 0 then operate_element_values ADD m B elem 0 st else st)"

definition set_element_values ::
  "ElementMesh \<Rightarrow> basis \<Rightarrow> nat \<Rightarrow> 'a::comm_ring_1 vec \<times> 'a list \<Rightarrow> 'a vec \<times> 'a list" where
  "set_element_values m B elem st =
     (if nbasis B > 0 then operate_element_values SET m B elem 0 st else st)"

text \<open>
  In closed form: the element values a gather stores, \<open>sign * global\<close> for each local
  degree of freedom in local order, and the global vector after a scatter-add of the
  element values \<open>dof\<close>, each global entry increased by \<open>sign * dof\<close> for every local degree
  of freedom that maps to it.
\<close>

definition gathered :: "ElementMesh \<Rightarrow> basis \<Rightarrow> nat \<Rightarrow> 'a::comm_ring_1 vec \<Rightarrow> 'a list" where
  "gathered m B elem v =
     map (\<lambda>p. of_int (dof_sign m elem p) * v (dof_global m elem p)) (local_dofs B)"

definition scattered ::
  "ElementMesh \<Rightarrow> basis \<Rightarrow> nat \<Rightarrow> 'a::comm_ring_1 list \<Rightarrow> 'a vec \<Rightarrow> 'a vec" where
  "scattered m B elem dof v =
     (\<lambda>g. v g + sum_list (map (\<lambda>p. of_int (dof_sign m elem p) * dof ! local_index B p)
                          (filter (\<lambda>p. dof_global m elem p = g) (local_dofs B))))"

section \<open>ElementMat_Serial\<close>

text \<open>\<open>FEMat(elem, elem_mat)\<close>: a private buffer of \<open>Basis::ndof * Basis::ndof\<close> zeros;
  \<open>operator()(i, j)\<close> is the entry at \<open>i * Basis::ndof + j\<close>.\<close>

definition FEMat :: "basis \<Rightarrow> nat \<Rightarrow> 'a::zero list" where
  "FEMat B elem = replicate (ndof B * ndof B) 0"

definition FEMat_index :: "basis \<Rightarrow> nat \<Rightarrow> nat \<Rightarrow> nat" where
  "FEMat_index B i j = i * ndof B + j"

text \<open>One iteration of the loop over \<open>i\<close> in \<open>get_dof<basis>\<close>, on the arrays \<open>dof\<close> and
  \<open>sign\<close>.\<close>

definition get_dof_entry ::
  "ElementMesh \<Rightarrow> basis \<Rightarrow> nat \<Rightarrow> nat \<Rightarrow> nat \<Rightarrow> nat list \<times> int list \<Rightarrow> nat list \<times> int list" where
  "get_dof_entry m B elem b i = (\<lambda>(dof, sign).
     let sign' = sign[i + get_dof_offset B b := get_global_dof_sign m elem b i];
         dof' = dof[i + get_dof_offset B b := get_global_dof m elem b i]
     in (dof', sign'))"

function get_dof ::
  "ElementMesh \<Rightarrow> basis \<Rightarrow> nat \<Rightarrow> nat \<Rightarrow> nat list \<times> int list \<Rightarrow> nat list \<times> int list" where
  "get_dof m B elem b st =
     (let st' = fold (get_dof_entry m B elem b) [0..<get_ndof B b] st
      in if b + 1 < nbasis B then get_dof m B elem (b + 1) st' else st')"
  by pat_completeness auto
termination
  by (relation "measure (\<lambda>(m, B, elem, b, st). nbasis B - b)") auto

declare get_dof.simps [simp del]

text \<open>The body of the double loop: \<open>elem_mat(i, j) = sign[i] * sign[j] * elem_mat(i, j)\<close>.\<close>

definition scale_entry :: "basis \<Rightarrow> int list \<Rightarrow> nat \<Rightarrow> nat \<Rightarrow> 'a::comm_ring_1 list \<Rightarrow> 'a list" where
  "scale_entry B sign i j A =
     A[FEMat_index B i j := of_int (sign ! i * sign ! j) * A ! FEMat_index B i j]"

text \<open>The arguments of the call \<open>mat.add_values(Basis::ndof, dof, Basis::ndof, dof, elem_mat)\<close>
  on the sparse-matrix sink.\<close>

record 'a add_values_call =
  row_count :: nat
  row_indices :: "nat list"
  col_count :: nat
  col_indices :: "nat list"
  dense_block :: "'a list"

text \<open>
  \<open>ElementMat_Serial::add_element_values\<close>. The local arrays \<open>dof\<close> and \<open>sign\<close> are not
  initialised in the source: their contents on entry are the arguments \<open>dof0\<close> and \<open>sign0\<close>.
  The result is the caller's \<open>FEMat\<close> after the call and the call made on the sink.
\<close>

definition ElementMat_add_element_values ::
  "ElementMesh \<Rightarrow> basis \<Rightarrow> nat list \<Rightarrow> int list \<Rightarrow> nat \<Rightarrow> 'a::comm_ring_1 list \<Rightarrow>
     'a list \<times> 'a add_values_call" where
  "ElementMat_add_element_values m B dof0 sign0 elem elem_mat =
     (let (dof, sign) = (if nbasis B > 0 then get_dof m B elem 0 (dof0, sign0) else (dof0, sign0));
          elem_mat' = fold (\<lambda>i. fold (\<lambda>j. scale_entry B sign i j) [0..<ndof B]) [0..<ndof B] elem_mat
      in (elem_mat', \<lparr>row_count = ndof B, row_indices = dof, col_count = ndof B,
                      col_indices = dof, dense_block = elem_mat'\<rparr>))"

section \<open>ElementVector_Parallel\<close>

text \<open>
  The state of an \<open>ElementVector_Parallel\<close> is the global vector and the array
  \<open>elem_vec_array\<close>, one row of \<open>Basis::ndof\<close> values for each element. Its \<open>FEDof\<close> holds the
  element index and a reference to the array; \<open>operator[]\<close> reads the row of that element.
\<close>

type_synonym 'a parallel_state = "'a vec \<times> 'a list list"

definition Parallel_FEDof_index :: "nat \<Rightarrow> 'a parallel_state \<Rightarrow> nat \<Rightarrow> 'a" where
  "Parallel_FEDof_index elem st index = snd st ! elem ! index"

text \<open>
  The private templates \<open>_get_element_values<nbasis>\<close> and \<open>_add_element_values<nbasis>\<close>
  work on basis group \<open>nbasis - 1\<close> and, when \<open>nbasis > 1\<close>, instantiate themselves at
  \<open>nbasis - 2\<close>. At \<open>nbasis = 0\<close> the index \<open>nbasis - 1\<close> names no basis group of \<open>Basis\<close>
  (the template parameter is documented as at least 1): reaching that instantiation is
  the error \<open>BasisIndexOutOfRange\<close>.
\<close>

datatype error = BasisIndexOutOfRange

definition priv_get_dof ::
  "ElementMesh \<Rightarrow> basis \<Rightarrow> nat \<Rightarrow> nat \<Rightarrow> nat \<Rightarrow>
     'a::comm_ring_1 parallel_state \<Rightarrow> 'a parallel_state" where
  "priv_get_dof m B elem_idx b i = (\<lambda>(v, elem_vec_array).
     let sign = get_global_dof_sign m elem_idx b i;
         dof_index = get_global_dof m elem_idx b i;
         dof_idx = i + get_dof_offset B b
     in (v, elem_vec_array[elem_idx :=
               (elem_vec_array ! elem_idx)[dof_idx := of_int sign * v dof_index]]))"

fun priv_get_element_values ::
  "nat \<Rightarrow> ElementMesh \<Rightarrow> basis \<Rightarrow> nat \<Rightarrow> 'a::comm_ring_1 parallel_state \<Rightarrow>
     error + 'a parallel_state" where
  "priv_get_element_values 0 m B elem_idx st = Inl BasisIndexOutOfRange"
| "priv_get_element_values (Suc n) m B elem_idx st =
     (let st' = fold (priv_get_dof m B elem_idx n) [0..<get_ndof B n] st
      in if Suc n > 1 then priv_get_element_values (Suc n - 2) m B elem_idx st' else Inr st')"

definition priv_add_dof ::
  "ElementMesh \<Rightarrow> basis \<Rightarrow> nat \<Rightarrow> nat \<Rightarrow> nat \<Rightarrow>
     'a::comm_ring_1 parallel_state \<Rightarrow> 'a parallel_state" where
  "priv_add_dof m B elem_idx b i = (\<lambda>(v, elem_vec_array).
     let sign = get_global_dof_sign m elem_idx b i;
         dof_index = get_global_dof m elem_idx b i;
         dof_idx = i + get_dof_offset B b
     in (v(dof_index := v dof_index + of_int sign * elem_vec_array ! elem_idx ! dof_idx),
         elem_vec_array))"

fun priv_add_element_values ::
  "nat \<Rightarrow> ElementMesh \<Rightarrow> basis \<Rightarrow> nat \<Rightarrow> 'a::comm_ring_1 parallel_state \<Rightarrow>
     error + 'a parallel_state" where
  "priv_add_element_values 0 m B elem_idx st = Inl BasisIndexOutOfRange"
| "priv_add_element_values (Suc n) m B elem_idx st =
     (let st' = fold (priv_add_dof m B elem_idx n) [0..<get_ndof B n] st
      in if Suc n > 1 then priv_add_element_values (Suc n - 2) m B elem_idx st' else Inr st')"

text \<open>The loop \<open>for (elem = 0; elem < mesh.get_num_elements(); elem++)\<close>, stopping at an
  error.\<close>

fun for_elements :: "(nat \<Rightarrow> 's \<Rightarrow> error + 's) \<Rightarrow> nat list \<Rightarrow> 's \<Rightarrow> error + 's" where
  "for_elements f [] st = Inr st"
| "for_elements f (elem # elems) st =
     (case f elem st of Inl e \<Rightarrow> Inl e | Inr st' \<Rightarrow> for_elements f elems st')"

definition init_values ::
  "ElementMesh \<Rightarrow> basis \<Rightarrow> 'a::comm_ring_1 parallel_state \<Rightarrow> error + 'a parallel_state" where
  "init_values m B st =
     for_elements (priv_get_element_values (nbasis B) m B) [0..<get_num_elements m] st"

definition init_zero_values :: "'a::comm_ring_1 parallel_state \<Rightarrow> 'a parallel_state" where
  "init_zero_values st = (fst st, map (map (\<lambda>x. 0)) (snd st))"

definition add_values ::
  "ElementMesh \<Rightarrow> basis \<Rightarrow> 'a::comm_ring_1 parallel_state \<Rightarrow> error + 'a parallel_state" where
  "add_values m B st =
     for_elements (priv_add_element_values (nbasis B) m B) [0..<get_num_elements m] st"

text \<open>The public per-element members of \<open>ElementVector_Parallel\<close> have empty bodies; the
  \<open>FEDof\<close> argument is the element index it was constructed with.\<close>

definition Parallel_get_element_values ::
  "nat \<Rightarrow> nat \<Rightarrow> 'a parallel_state \<Rightarrow> 'a parallel_state" where
  "Parallel_get_element_values elem dof st = st"

definition Parallel_add_element_values ::
  "nat \<Rightarrow> nat \<Rightarrow> 'a parallel_state \<Rightarrow> 'a parallel_state" where
  "Parallel_add_element_values elem dof st = st"

definition Parallel_set_element_values ::
  "nat \<Rightarrow> nat \<Rightarrow> 'a parallel_state \<Rightarrow> 'a parallel_state" where
  "Parallel_set_element_values elem dof st = st"

section \<open>The assembly engine\<close>

text \<open>
  Modelled from the spec: the external collaborators of the engine (section 6 of the
  specification; their headers are not among the sources), taken as parameters. A
  field-space value (\<open>PDE::DataSpace\<close>, \<open>PDE::FiniteElementGeometry\<close>,
  \<open>PDE::FiniteElementSpace\<close>) is the list of its components, a \<open>Mat\<close> the list of its rows.
  An operation that writes its result through a reference argument is the function that
  returns the result; \<open>Basis::add\<close>, which accumulates into the element buffer it is
  given, and \<open>Basis::add_outer\<close>, which accumulates into the element matrix, take the
  previous contents as their last argument. \<open>JacVecProduct C wdetJ data geo s\<close> is the
  operator constructed from \<open>(pde, wdetJ, data, geo, s)\<close>, applied to a direction.
\<close>

record 'a collaborators =
  ncomp :: nat
  get_num_points :: nat
  get_weight :: "nat \<Rightarrow> 'a"
  DataBasis_interp :: "'a list \<Rightarrow> nat \<Rightarrow> 'a list"
  GeoBasis_interp :: "'a list \<Rightarrow> nat \<Rightarrow> 'a list"
  Basis_interp :: "'a list \<Rightarrow> nat \<Rightarrow> 'a list"
  Basis_add :: "'a list list \<Rightarrow> 'a list \<Rightarrow> 'a list"
  Basis_add_outer :: "nat \<Rightarrow> 'a list list \<Rightarrow> 'a list \<Rightarrow> 'a list"
  get_grad :: "'a list \<Rightarrow> 'a list list"
  MatInverse :: "'a list list \<Rightarrow> 'a list list"
  MatDet :: "'a list list \<Rightarrow> 'a"
  transform :: "'a \<Rightarrow> 'a list list \<Rightarrow> 'a list list \<Rightarrow> 'a list \<Rightarrow> 'a list"
  rtransform :: "'a \<Rightarrow> 'a list list \<Rightarrow> 'a list list \<Rightarrow> 'a list \<Rightarrow> 'a list"
  weak :: "'a \<Rightarrow> 'a list \<Rightarrow> 'a list \<Rightarrow> 'a list \<Rightarrow> 'a list"
  JacVecProduct :: "'a \<Rightarrow> 'a list \<Rightarrow> 'a list \<Rightarrow> 'a list \<Rightarrow> 'a list \<Rightarrow> 'a list"

text \<open>A serial element vector: its mesh, its basis and the global vector it refers to.
  The engine is modelled over serial views, the strategy of the example program.\<close>

record 'a ElementVector =
  ev_mesh :: ElementMesh
  ev_basis :: basis
  ev_vec :: "'a vec"

definition ev_get_element_values ::
  "nat \<Rightarrow> 'a::comm_ring_1 ElementVector \<times> 'a list \<Rightarrow> 'a ElementVector \<times> 'a list" where
  "ev_get_element_values elem = (\<lambda>(ev, dof).
     let (v, dof') = get_element_values (ev_mesh ev) (ev_basis ev) elem (ev_vec ev, dof)
     in (ev\<lparr>ev_vec := v\<rparr>, dof'))"

definition ev_add_element_values ::
  "nat \<Rightarrow> 'a::comm_ring_1 ElementVector \<times> 'a list \<Rightarrow> 'a ElementVector \<times> 'a list" where
  "ev_add_element_values elem = (\<lambda>(ev, dof).
     let (v, dof') = add_element_values (ev_mesh ev) (ev_basis ev) elem (ev_vec ev, dof)
     in (ev\<lparr>ev_vec := v\<rparr>, dof'))"

text \<open>A serial element matrix view: its mesh, its basis and the calls made so far on the
  sparse-matrix sink.\<close>

record 'a ElementMat =
  em_mesh :: ElementMesh
  em_basis :: basis
  em_calls :: "'a add_values_call list"

text \<open>The flush of \<open>add_jacobian\<close>; the local arrays of \<open>add_element_values\<close> start as zeros
  here.\<close>

definition em_add_element_values ::
  "nat \<Rightarrow> 'a::comm_ring_1 ElementMat \<times> 'a list \<Rightarrow> 'a ElementMat \<times> 'a list" where
  "em_add_element_values elem = (\<lambda>(em, element_mat).
     let (element_mat', call) =
           ElementMat_add_element_values (em_mesh em) (em_basis em)
             (replicate (ndof (em_basis em)) 0) (replicate (ndof (em_basis em)) 0)
             elem element_mat
     in (em\<lparr>em_calls := em_calls em @ [call]\<rparr>, element_mat'))"

text \<open>Gather the local values of element \<open>i\<close> into a fresh \<open>FEDof\<close> and interpolate them
  at every quadrature point: the \<open>QptSpace\<close> as the list of its values.\<close>

definition gather ::
  "nat \<Rightarrow> 'a::comm_ring_1 ElementVector \<Rightarrow> 'a ElementVector \<times> 'a list" where
  "gather i ev = ev_get_element_values i (ev, FEDof (ev_basis ev) i)"

definition QptSpace :: "'a collaborators \<Rightarrow> (nat \<Rightarrow> 'a list) \<Rightarrow> 'a list list" where
  "QptSpace C f = map f [0..<get_num_points C]"

text \<open>The Jacobian transformation at a quadrature point: \<open>J\<close>, its inverse and its
  determinant, computed from the geometry value.\<close>

definition jacobian_transformation ::
  "'a collaborators \<Rightarrow> 'a list \<Rightarrow> 'a \<times> 'a list list \<times> 'a list list" where
  "jacobian_transformation C gref =
     (let J = get_grad C gref;
          Jinv = MatInverse C J;
          detJ = MatDet C J
      in (detJ, J, Jinv))"

text \<open>The body of the quadrature loop of \<open>add_residual\<close>: the value stored in \<open>res.get(j)\<close>.\<close>

definition residual_point ::
  "'a::comm_ring_1 collaborators \<Rightarrow> 'a list list \<Rightarrow> 'a list list \<Rightarrow> 'a list list \<Rightarrow> nat \<Rightarrow> 'a list" where
  "residual_point C data geo sol j =
     (let sref = sol ! j;
          gref = geo ! j;
          (detJ, J, Jinv) = jacobian_transformation C gref;
          s = transform C detJ J Jinv sref;
          weight = get_weight C j;
          coef = weak C (weight * detJ) (data ! j) gref s
      in rtransform C detJ J Jinv coef)"

type_synonym 'a residual_state =
  "'a ElementVector \<times> 'a ElementVector \<times> 'a ElementVector \<times> 'a ElementVector"

definition add_residual_element ::
  "'a::comm_ring_1 collaborators \<Rightarrow> nat \<Rightarrow> 'a residual_state \<Rightarrow> 'a residual_state" where
  "add_residual_element C i = (\<lambda>(elem_data, elem_geo, elem_sol, elem_res).
     let (elem_data, data_dof) = gather i elem_data;
         data = QptSpace C (DataBasis_interp C data_dof);
         (elem_geo, geo_dof) = gather i elem_geo;
         geo = QptSpace C (GeoBasis_interp C geo_dof);
         (elem_sol, sol_dof) = gather i elem_sol;
         sol = QptSpace C (Basis_interp C sol_dof);
         res = QptSpace C (residual_point C data geo sol);
         (elem_res, res_dof) = gather i elem_res;
         res_dof = Basis_add C res res_dof;
         (elem_res, res_dof) = ev_add_element_values i (elem_res, res_dof)
     in (elem_data, elem_geo, elem_sol, elem_res))"

definition add_residual ::
  "'a::comm_ring_1 collaborators \<Rightarrow> 'a residual_state \<Rightarrow> 'a residual_state" where
  "add_residual C = (\<lambda>(elem_data, elem_geo, elem_sol, elem_res).
     fold (add_residual_element C) [0..<get_num_elements (ev_mesh elem_geo)]
       (elem_data, elem_geo, elem_sol, elem_res))"

text \<open>The body of the quadrature loop of \<open>add_jacobian_vector_product\<close>: the value stored
  in \<open>ysol.get(j)\<close>.\<close>

definition jvp_point ::
  "'a::comm_ring_1 collaborators \<Rightarrow> 'a list list \<Rightarrow> 'a list list \<Rightarrow> 'a list list \<Rightarrow>
     'a list list \<Rightarrow> nat \<Rightarrow> 'a list" where
  "jvp_point C data geo sol xsol j =
     (let sref = sol ! j;
          xref = xsol ! j;
          gref = geo ! j;
          (detJ, J, Jinv) = jacobian_transformation C gref;
          s = transform C detJ J Jinv sref;
          x = transform C detJ J Jinv xref;
          weight = get_weight C j;
          y = JacVecProduct C (weight * detJ) (data ! j) gref s x
      in rtransform C detJ J Jinv y)"

type_synonym 'a jvp_state =
  "'a ElementVector \<times> 'a ElementVector \<times> 'a ElementVector \<times> 'a ElementVector \<times> 'a ElementVector"

definition add_jacobian_vector_product_element ::
  "'a::comm_ring_1 collaborators \<Rightarrow> nat \<Rightarrow> 'a jvp_state \<Rightarrow> 'a jvp_state" where
  "add_jacobian_vector_product_element C i = (\<lambda>(elem_data, elem_geo, elem_sol, elem_xvec, elem_yvec).
     let (elem_data, data_dof) = gather i elem_data;
         data = QptSpace C (DataBasis_interp C data_dof);
         (elem_geo, geo_dof) = gather i elem_geo;
         geo = QptSpace C (GeoBasis_interp C geo_dof);
         (elem_sol, sol_dof) = gather i elem_sol;
         sol = QptSpace C (Basis_interp C sol_dof);
         (elem_xvec, x_dof) = gather i elem_xvec;
         xsol = QptSpace C (Basis_interp C x_dof);
         ysol = QptSpace C (jvp_point C data geo sol xsol);
         (elem_yvec, y_dof) = gather i elem_yvec;
         y_dof = Basis_add C ysol y_dof;
         (elem_yvec, y_dof) = ev_add_element_values i (elem_yvec, y_dof)
     in (elem_data, elem_geo, elem_sol, elem_xvec, elem_yvec))"

definition add_jacobian_vector_product ::
  "'a::comm_ring_1 collaborators \<Rightarrow> 'a jvp_state \<Rightarrow> 'a jvp_state" where
  "add_jacobian_vector_product C = (\<lambda>(elem_data, elem_geo, elem_sol, elem_xvec, elem_yvec).
     fold (add_jacobian_vector_product_element C) [0..<get_num_elements (ev_mesh elem_geo)]
       (elem_data, elem_geo, elem_sol, elem_xvec, elem_yvec))"

text \<open>
  The probing loop of \<open>add_jacobian\<close> at a quadrature point. \<open>probe k\<close> is \<open>pref\<close> after
  iteration \<open>k\<close>: zeroed, set to one at \<open>k\<close>, transformed, passed through the operator and
  transformed back; \<open>jac(m, k) = pref[m]\<close> makes it column \<open>k\<close> of \<open>jac\<close>, the list of the rows.
\<close>

definition probe ::
  "'a::comm_ring_1 collaborators \<Rightarrow> 'a list list \<Rightarrow> 'a list list \<Rightarrow> 'a list list \<Rightarrow> nat \<Rightarrow> nat \<Rightarrow> 'a list" where
  "probe C data geo sol j k =
     (let sref = sol ! j;
          gref = geo ! j;
          (detJ, J, Jinv) = jacobian_transformation C gref;
          s = transform C detJ J Jinv sref;
          weight = get_weight C j;
          pref = (replicate (ncomp C) 0)[k := 1];
          p = transform C detJ J Jinv pref;
          Jp = JacVecProduct C (weight * detJ) (data ! j) gref s p
      in rtransform C detJ J Jinv Jp)"

definition jacobian_point ::
  "'a::comm_ring_1 collaborators \<Rightarrow> 'a list list \<Rightarrow> 'a list list \<Rightarrow> 'a list list \<Rightarrow> nat \<Rightarrow> 'a list list" where
  "jacobian_point C data geo sol j =
     map (\<lambda>m. map (\<lambda>k. probe C data geo sol j k ! m) [0..<ncomp C]) [0..<ncomp C]"

type_synonym 'a jacobian_state =
  "'a ElementVector \<times> 'a ElementVector \<times> 'a ElementVector \<times> 'a ElementMat"

definition add_jacobian_element ::
  "'a::comm_ring_1 collaborators \<Rightarrow> nat \<Rightarrow> 'a jacobian_state \<Rightarrow> 'a jacobian_state" where
  "add_jacobian_element C i = (\<lambda>(elem_data, elem_geo, elem_sol, elem_mat).
     let (elem_data, data_dof) = gather i elem_data;
         data = QptSpace C (DataBasis_interp C data_dof);
         (elem_geo, geo_dof) = gather i elem_geo;
         geo = QptSpace C (GeoBasis_interp C geo_dof);
         (elem_sol, sol_dof) = gather i elem_sol;
         sol = QptSpace C (Basis_interp C sol_dof);
         element_mat = fold (\<lambda>j. Basis_add_outer C j (jacobian_point C data geo sol j))
                         [0..<get_num_points C] (FEMat (em_basis elem_mat) i);
         (elem_mat, element_mat) = em_add_element_values i (elem_mat, element_mat)
     in (elem_data, elem_geo, elem_sol, elem_mat))"

definition add_jacobian ::
  "'a::comm_ring_1 collaborators \<Rightarrow> 'a jacobian_state \<Rightarrow> 'a jacobian_state" where
  "add_jacobian C = (\<lambda>(elem_data, elem_geo, elem_sol, elem_mat).
     fold (add_jacobian_element C) [0..<get_num_elements (ev_mesh elem_geo)]
       (elem_data, elem_geo, elem_sol, elem_mat))"

section \<open>Linear collaborators\<close>

text \<open>
  Vectors are lists; \<open>lincomb a u b v\<close> is the combination \<open>a * u + b * v\<close> of two vectors of
  one length. A map between vectors of lengths \<open>n\<close> and \<open>k\<close> is linear when it keeps the
  lengths and commutes with such combinations.
\<close>

definition lincomb :: "'a::comm_ring_1 \<Rightarrow> 'a list \<Rightarrow> 'a \<Rightarrow> 'a list \<Rightarrow> 'a list" where
  "lincomb a u b v = map2 (\<lambda>x y. a * x + b * y) u v"

definition linear_map :: "nat \<Rightarrow> nat \<Rightarrow> ('a::comm_ring_1 list \<Rightarrow> 'a list) \<Rightarrow> bool" where
  "linear_map n k f \<longleftrightarrow>
     (\<forall>u. length u = n \<longrightarrow> length (f u) = k) \<and>
     (\<forall>a b u v. length u = n \<longrightarrow> length v = n \<longrightarrow>
        f (lincomb a u b v) = lincomb a (f u) b (f v))"

text \<open>A \<open>QptSpace\<close> of the solution space: one value of \<open>ncomp\<close> components for each
  quadrature point.\<close>

definition is_QSpace :: "'a collaborators \<Rightarrow> 'a list list \<Rightarrow> bool" where
  "is_QSpace C Y \<longleftrightarrow> length Y = get_num_points C \<and> list_all (\<lambda>y. length y = ncomp C) Y"

text \<open>
  The contracts used of the collaborators, for a solution basis of \<open>n\<close> degrees of freedom:
  interpolation at each quadrature point, \<open>transform\<close>, \<open>rtransform\<close> and the
  directional-derivative operator are linear in the value they are applied to, and
  \<open>Basis::add\<close> is linear in the pair of the quadrature-point values and the element
  buffer it accumulates into.
\<close>

definition linear_collaborators :: "'a::comm_ring_1 collaborators \<Rightarrow> nat \<Rightarrow> bool" where
  "linear_collaborators C n \<longleftrightarrow>
     (\<forall>j. linear_map n (ncomp C) (\<lambda>dof. Basis_interp C dof j)) \<and>
     (\<forall>detJ J Jinv. linear_map (ncomp C) (ncomp C) (transform C detJ J Jinv)) \<and>
     (\<forall>detJ J Jinv. linear_map (ncomp C) (ncomp C) (rtransform C detJ J Jinv)) \<and>
     (\<forall>w data geo s. linear_map (ncomp C) (ncomp C) (JacVecProduct C w data geo s)) \<and>
     (\<forall>Y dof. is_QSpace C Y \<longrightarrow> length dof = n \<longrightarrow> length (Basis_add C Y dof) = n) \<and>
     (\<forall>a b Y1 Y2 dof1 dof2.
        is_QSpace C Y1 \<longrightarrow> is_QSpace C Y2 \<longrightarrow> length dof1 = n \<longrightarrow> length dof2 = n \<longrightarrow>
        Basis_add C (map2 (\<lambda>y1 y2. lincomb a y1 b y2) Y1 Y2) (lincomb a dof1 b dof2)
          = lincomb a (Basis_add C Y1 dof1) b (Basis_add C Y2 dof2))"

text \<open>
  The operator of a quadrature point on reference directions: transform the direction,
  apply the directional-derivative operator built from the weight times the determinant
  and the transformed solution, transform back.
\<close>

definition point_operator ::
  "'a::comm_ring_1 collaborators \<Rightarrow> 'a list \<Rightarrow> 'a list \<Rightarrow> 'a list \<Rightarrow> nat \<Rightarrow> 'a list \<Rightarrow> 'a list" where
  "point_operator C dataj gref sref j xref =
     (let (detJ, J, Jinv) = jacobian_transformation C gref
      in rtransform C detJ J Jinv
           (JacVecProduct C (get_weight C j * detJ) dataj gref (transform C detJ J Jinv sref)
              (transform C detJ J Jinv xref)))"

text \<open>The quadrature-point values \<open>ysol\<close> of element \<open>i\<close> for the element values \<open>x_dof\<close> of
  the direction, and the global array \<open>y\<close> after the step of element \<open>i\<close>.\<close>

definition jvp_values ::
  "'a::comm_ring_1 collaborators \<Rightarrow> 'a ElementVector \<Rightarrow> 'a ElementVector \<Rightarrow> 'a ElementVector \<Rightarrow>
     nat \<Rightarrow> 'a list \<Rightarrow> 'a list list" where
  "jvp_values C elem_data elem_geo elem_sol i x_dof =
     QptSpace C (\<lambda>j. point_operator C
        (DataBasis_interp C (snd (gather i elem_data)) j)
        (GeoBasis_interp C (snd (gather i elem_geo)) j)
        (Basis_interp C (snd (gather i elem_sol)) j) j
        (Basis_interp C x_dof j))"

definition element_product ::
  "'a::comm_ring_1 collaborators \<Rightarrow> 'a ElementVector \<Rightarrow> 'a ElementVector \<Rightarrow> 'a ElementVector \<Rightarrow>
     ElementMesh \<Rightarrow> basis \<Rightarrow> 'a vec \<Rightarrow> nat \<Rightarrow> 'a vec \<Rightarrow> 'a vec" where
  "element_product C elem_data elem_geo elem_sol m B x i y =
     scattered m B i
       (Basis_add C (jvp_values C elem_data elem_geo elem_sol i (gathered m B i x))
          (gathered m B i y)) y"

text \<open>The global array \<open>y\<close> after \<open>add_jacobian_vector_product\<close> on the direction \<open>x\<close>, both
  over the basis \<open>B\<close>.\<close>

definition assembled_product ::
  "'a::comm_ring_1 collaborators \<Rightarrow> 'a ElementVector \<Rightarrow> 'a ElementVector \<Rightarrow> 'a ElementVector \<Rightarrow>
     ElementMesh \<Rightarrow> basis \<Rightarrow> 'a vec \<Rightarrow> 'a vec \<Rightarrow> 'a vec" where
  "assembled_product C elem_data elem_geo elem_sol m B x y =
     (case add_jacobian_vector_product C
             (elem_data, elem_geo, elem_sol,
              \<lparr>ev_mesh = m, ev_basis = B, ev_vec = x\<rparr>, \<lparr>ev_mesh = m, ev_basis = B, ev_vec = y\<rparr>) of
        (elem_data', elem_geo', elem_sol', elem_xvec', elem_yvec') \<Rightarrow> ev_vec elem_yvec')"

section \<open>The derivative consistency check\<close>

text \<open>
  \<open>sref.transform(detJ, J, Jinv, s); pde.weak(detJ, data, geo, s, coef);
  coef.rtransform(detJ, J, Jinv, cref)\<close>: the coefficient of the weak form at \<open>sref\<close>, pulled
  back to the reference element.
\<close>

definition pulled_back_coefficient ::
  "'a collaborators \<Rightarrow> 'a list \<Rightarrow> 'a list \<Rightarrow> 'a list \<Rightarrow> 'a list" where
  "pulled_back_coefficient C data geo sref =
     (let (detJ, J, Jinv) = jacobian_transformation C geo;
          s = transform C detJ J Jinv sref;
          coef = weak C detJ data geo s
      in rtransform C detJ J Jinv coef)"

text \<open>\<open>jvp(pde, detJ, data, geo, s)\<close> at the transformed \<open>sref\<close>, applied to the transformed
  \<open>pref\<close> and pulled back: \<open>Jpref\<close>.\<close>

definition analytic_derivative ::
  "'a collaborators \<Rightarrow> 'a list \<Rightarrow> 'a list \<Rightarrow> 'a list \<Rightarrow> 'a list \<Rightarrow> 'a list" where
  "analytic_derivative C data geo sref pref =
     (let (detJ, J, Jinv) = jacobian_transformation C geo;
          s = transform C detJ J Jinv sref;
          p = transform C detJ J Jinv pref;
          Jp = JacVecProduct C detJ data geo s p
      in rtransform C detJ J Jinv Jp)"

text \<open>A division of doubles whose divisor is zero gives no finite number: \<open>None\<close>.\<close>

definition divide_double :: "'a::field \<Rightarrow> 'a \<Rightarrow> 'a option" where
  "divide_double x y = (if y = 0 then None else Some (x / y))"

text \<open>One printed line: \<open>std::real(fd[i])\<close>, \<open>std::real(Jpref[i])\<close> and
  \<open>std::real((fd[i] - Jpref[i]) / fd[i])\<close>.\<close>

record report_line =
  fd :: "real option"
  Jpref :: real
  err :: "real option"

text \<open>
  \<open>TestPDEImplementation<T, PDE>(pde, dh)\<close> for a real \<open>T\<close>. The random draws \<open>data\<close>,
  \<open>geo\<close>, \<open>sref\<close> and \<open>pref\<close> are arguments; \<open>sref\<close> is perturbed in place, component by
  component; the result is the list of the printed lines.
\<close>

definition TestPDEImplementation ::
  "real collaborators \<Rightarrow> real \<Rightarrow> real list \<Rightarrow> real list \<Rightarrow> real list \<Rightarrow> real list \<Rightarrow>
     report_line list" where
  "TestPDEImplementation C dh data geo sref pref =
     (let cref0 = pulled_back_coefficient C data geo sref;
          sref' = fold (\<lambda>i s. s[i := s ! i + dh * pref ! i]) [0..<ncomp C] sref;
          cref = pulled_back_coefficient C data geo sref';
          Jpref = analytic_derivative C data geo sref' pref
      in map (\<lambda>i.
            let fd = divide_double (cref ! i - cref0 ! i) dh
            in \<lparr>fd = fd, Jpref = Jpref ! i,
                err = (case fd of None \<Rightarrow> None | Some f \<Rightarrow> divide_double (f - Jpref ! i) f)\<rparr>)
           [0..<ncomp C])"

text \<open>The same for \<open>T = std::complex<double>\<close>: the step is taken along the imaginary axis
  and the estimate is the imaginary part of \<open>cref\<close> over \<open>dh\<close>.\<close>

definition TestPDEImplementation_complex ::
  "complex collaborators \<Rightarrow> real \<Rightarrow> complex list \<Rightarrow> complex list \<Rightarrow> complex list \<Rightarrow>
     complex list \<Rightarrow> report_line list" where
  "TestPDEImplementation_complex C dh data geo sref pref =
     (let cref0 = pulled_back_coefficient C data geo sref;
          sref' = fold (\<lambda>i s. s[i := s ! i + complex_of_real dh * pref ! i * \<i>])
                    [0..<ncomp C] sref;
          cref = pulled_back_coefficient C data geo sref';
          Jpref = analytic_derivative C data geo sref' pref
      in map (\<lambda>i.
            let fd = divide_double (Im (cref ! i)) dh
            in \<lparr>fd = fd, Jpref = Re (Jpref ! i),
                err = (case fd of None \<Rightarrow> None
                       | Some f \<Rightarrow> map_option Re (divide_double (complex_of_real f - Jpref ! i)
                                                    (complex_of_real f)))\<rparr>)
           [0..<ncomp C])"

text \<open>The default value of the argument \<open>dh\<close>, \<open>1e-7\<close>.\<close>

definition dh_default :: real where
  "dh_default = 1 / 10 ^ 7"

text \<open>
  The estimates named by the specification, for a map \<open>c\<close> from reference states to
  pulled-back coefficients, a state \<open>x\<close>, a perturbation \<open>p\<close>, a step \<open>h\<close> and a component \<open>i\<close>:
  the one-sided (forward) difference, the central difference and the complex step.
\<close>

definition perturbed :: "'a::comm_ring_1 list \<Rightarrow> 'a \<Rightarrow> 'a list \<Rightarrow> 'a list" where
  "perturbed x h p = map2 (\<lambda>a b. a + h * b) x p"

definition forward_difference ::
  "(real list \<Rightarrow> real list) \<Rightarrow> real list \<Rightarrow> real list \<Rightarrow> real \<Rightarrow> nat \<Rightarrow> real" where
  "forward_difference c x p h i = (c (perturbed x h p) ! i - c x ! i) / h"

definition central_difference ::
  "(real list \<Rightarrow> real list) \<Rightarrow> real list \<Rightarrow> real list \<Rightarrow> real \<Rightarrow> nat \<Rightarrow> real" where
  "central_difference c x p h i = (c (perturbed x h p) ! i - c (perturbed x (- h) p) ! i) / (2 * h)"

definition complex_step ::
  "(complex list \<Rightarrow> complex list) \<Rightarrow> complex list \<Rightarrow> complex list \<Rightarrow> real \<Rightarrow> nat \<Rightarrow> real" where
  "complex_step c x p h i = Im (c (perturbed x (complex_of_real h * \<i>) p) ! i) / h"

section \<open>Example meshes\<close>

text \<open>One element whose local degrees of freedom are numbered globally in local order, all
  with sign \<open>+1\<close>.\<close>

definition single_element_mesh :: "basis \<Rightarrow> ElementMesh" where
  "single_element_mesh B =
     \<lparr>get_num_elements = 1,
      get_global_dof = (\<lambda>elem b i. i + get_dof_offset B b),
      get_global_dof_sign = (\<lambda>elem b i. 1)\<rparr>"

text \<open>One element, numbered as before, with sign \<open>-1\<close> on the odd local indices of a group.\<close>

definition flipped_element_mesh :: "basis \<Rightarrow> ElementMesh" where
  "flipped_element_mesh B =
     \<lparr>get_num_elements = 1,
      get_global_dof = (\<lambda>elem b i. i + get_dof_offset B b),
      get_global_dof_sign = (\<lambda>elem b i. if even i then 1 else - 1)\<rparr>"

text \<open>One element all of whose local degrees of freedom are the global degree of freedom 0.\<close>

definition collapsed_element_mesh :: ElementMesh where
  "collapsed_element_mesh =
     \<lparr>get_num_elements = 1,
      get_global_dof = (\<lambda>elem b i. 0),
      get_global_dof_sign = (\<lambda>elem b i. 1)\<rparr>"

text \<open>Two elements with one local degree of freedom each, both the global degree of
  freedom 0, with sign \<open>+1\<close>.\<close>

definition shared_dof_mesh :: ElementMesh where
  "shared_dof_mesh =
     \<lparr>get_num_elements = 2,
      get_global_dof = (\<lambda>elem b i. 0),
      get_global_dof_sign = (\<lambda>elem b i. 1)\<rparr>"

section \<open>Example collaborators\<close>

text \<open>
  The concrete scenario of the specification: identity geometry (Jacobian the identity,
  determinant 1), the weak form \<open>coef = w * s\<close> with its derivative \<open>w * x\<close>, a one-point
  quadrature rule of weight 1, one component and one shape function of value 1, so that
  interpolation copies the element values and \<open>Basis::add\<close> adds the quadrature-point
  values to the element buffer.
\<close>

definition identity_weak_form :: "int collaborators" where
  "identity_weak_form =
     \<lparr>ncomp = 1, get_num_points = 1, get_weight = (\<lambda>j. 1),
      DataBasis_interp = (\<lambda>dof j. dof), GeoBasis_interp = (\<lambda>dof j. dof),
      Basis_interp = (\<lambda>dof j. dof),
      Basis_add = (\<lambda>res dof. fold (\<lambda>r d. map2 (+) d r) res dof),
      Basis_add_outer = (\<lambda>j jac mat. map2 (+) mat (concat jac)),
      get_grad = (\<lambda>gref. [[1]]), MatInverse = (\<lambda>J. J), MatDet = (\<lambda>J. 1),
      transform = (\<lambda>detJ J Jinv s. s), rtransform = (\<lambda>detJ J Jinv s. s),
      weak = (\<lambda>w data geo s. map ((*) w) s),
      JacVecProduct = (\<lambda>w data geo s x. map ((*) w) x)\<rparr>"

text \<open>The views of that scenario over a mesh \<open>m\<close>: no data, a constant global vector for
  the geometry, the solution and the output.\<close>

definition constant_view :: "ElementMesh \<Rightarrow> basis \<Rightarrow> int \<Rightarrow> int ElementVector" where
  "constant_view m B c = \<lparr>ev_mesh = m, ev_basis = B, ev_vec = (\<lambda>g. c)\<rparr>"

definition residual_of_ones :: "ElementMesh \<Rightarrow> int \<Rightarrow> int" where
  "residual_of_ones m out =
     (case add_residual identity_weak_form
             (constant_view m [] 0, constant_view m [1] 1, constant_view m [1] 1,
              constant_view m [1] out) of
        (elem_data, elem_geo, elem_sol, elem_res) \<Rightarrow> ev_vec elem_res 0)"

text \<open>A weak form with one component and coefficient \<open>s * s\<close>, derivative \<open>2 * s * x\<close>, under
  the identity geometry.\<close>

definition square_weak_form :: "'a::comm_ring_1 collaborators" where
  "square_weak_form =
     \<lparr>ncomp = 1, get_num_points = 1, get_weight = (\<lambda>j. 1),
      DataBasis_interp = (\<lambda>dof j. dof), GeoBasis_interp = (\<lambda>dof j. dof),
      Basis_interp = (\<lambda>dof j. dof),
      Basis_add = (\<lambda>res dof. fold (\<lambda>r d. map2 (+) d r) res dof),
      Basis_add_outer = (\<lambda>j jac mat. map2 (+) mat (concat jac)),
      get_grad = (\<lambda>gref. [[1]]), MatInverse = (\<lambda>J. J), MatDet = (\<lambda>J. 1),
      transform = (\<lambda>detJ J Jinv s. s), rtransform = (\<lambda>detJ J Jinv s. s),
      weak = (\<lambda>w data geo s. map (\<lambda>x. w * x * x) s),
      JacVecProduct = (\<lambda>w data geo s x. map2 (\<lambda>a b. w * 2 * a * b) s x)\<rparr>"

text \<open>
  The scenario on a mesh \<open>m\<close> with the direction \<open>x = 7\<close>: the calls \<open>add_jacobian\<close> makes on
  the sink, and what the step of element \<open>i\<close> of \<open>add_jacobian_vector_product\<close> adds to the
  global entry \<open>y[0]\<close> when that entry holds \<open>y0\<close>.
\<close>

definition jacobian_calls :: "ElementMesh \<Rightarrow> int add_values_call list" where
  "jacobian_calls m =
     (case add_jacobian identity_weak_form
             (constant_view m [] 0, constant_view m [1] 1, constant_view m [1] 1,
              \<lparr>em_mesh = m, em_basis = [1], em_calls = []\<rparr>) of
        (elem_data, elem_geo, elem_sol, elem_mat) \<Rightarrow> em_calls elem_mat)"

definition product_element_output :: "ElementMesh \<Rightarrow> nat \<Rightarrow> int \<Rightarrow> int" where
  "product_element_output m i y0 =
     (case add_jacobian_vector_product_element identity_weak_form i
             (constant_view m [] 0, constant_view m [1] 1, constant_view m [1] 1,
              constant_view m [1] 7, constant_view m [1] y0) of
        (elem_data, elem_geo, elem_sol, elem_xvec, elem_yvec) \<Rightarrow> ev_vec elem_yvec 0 - y0)"

definition product_of_sevens :: "ElementMesh \<Rightarrow> int" where
  "product_of_sevens m =
     assembled_product identity_weak_form (constant_view m [] 0) (constant_view m [1] 1)
       (constant_view m [1] 1) m [1] (\<lambda>g. 7) (\<lambda>g. 0) 0"

text \<open>What \<open>add_jacobian_vector_product\<close> adds to the global entry \<open>y[0]\<close> in the scenario
  on a mesh \<open>m\<close>, for the constant direction \<open>x\<close> and an output array that holds \<open>y0\<close>.\<close>

definition product_increment :: "ElementMesh \<Rightarrow> int \<Rightarrow> int \<Rightarrow> int" where
  "product_increment m x y0 =
     assembled_product identity_weak_form (constant_view m [] 0) (constant_view m [1] 1)
       (constant_view m [1] 1) m [1] (\<lambda>g. x) (\<lambda>g. y0) 0 - y0"

section \<open>The serial gather and scatter in closed form\<close>

lemma operate_element_values_groups:
  "b < nbasis B \<Longrightarrow>
   operate_element_values op m B elem b st =
     fold (\<lambda>b. fold (operate_dof op m B elem b) [0..<get_ndof B b]) [b..<nbasis B] st"
proof (induction op m B elem b st rule: operate_element_values.induct)
  case (1 op m B elem b st)
  show ?case
  proof (cases "b + 1 < nbasis B")
    case True
    with 1 show ?thesis
      by (subst operate_element_values.simps) (simp add: upt_conv_Cons Let_def)
  next
    case False
    with 1 have "[b..<nbasis B] = [b]" by (simp add: upt_conv_Cons)
    with False show ?thesis
      by (subst operate_element_values.simps) (simp add: Let_def)
  qed
qed

lemma fold_groups_pairs:
  "fold (\<lambda>b. fold (f b) [0..<n b]) bs st =
   fold (\<lambda>(b, i). f b i) (concat (map (\<lambda>b. map (Pair b) [0..<n b]) bs)) st"
  by (induction bs arbitrary: st) (simp_all add: fold_map comp_def)

lemma operate_element_values_pairs:
  "0 < nbasis B \<Longrightarrow>
   operate_element_values op m B elem 0 st =
     fold (\<lambda>(b, i). operate_dof op m B elem b i) (local_dofs B) st"
  by (simp add: operate_element_values_groups fold_groups_pairs local_dofs_def)

lemma local_dofs_Nil: "nbasis B = 0 \<Longrightarrow> local_dofs B = []"
  by (simp add: local_dofs_def)

lemma local_dofs_snoc:
  "local_dofs (B @ [n]) = local_dofs B @ map (Pair (length B)) [0..<n]"
proof -
  have "map (\<lambda>b. map (Pair b) [0..<(B @ [n]) ! b]) [0..<length B]
        = map (\<lambda>b. map (Pair b) [0..<B ! b]) [0..<length B]"
    by (rule map_cong) (simp_all add: nth_append)
  then have "concat (map (\<lambda>b. map (Pair b) [0..<(B @ [n]) ! b]) [0..<length B])
        = concat (map (\<lambda>b. map (Pair b) [0..<B ! b]) [0..<length B])"
    by (rule arg_cong)
  then show ?thesis
    unfolding local_dofs_def nbasis_def get_ndof_def by simp
qed

lemma local_index_snoc:
  "p \<in> set (local_dofs B) \<Longrightarrow> local_index (B @ [n]) p = local_index B p"
  by (auto simp: local_dofs_def local_index_def get_dof_offset_def nbasis_def)

lemma local_index_dofs: "map (local_index B) (local_dofs B) = [0..<ndof B]"
proof (induction B rule: rev_induct)
  case Nil
  show ?case by (simp add: local_dofs_def ndof_def nbasis_def)
next
  case (snoc n B)
  have "map (local_index (B @ [n])) (local_dofs B) = map (local_index B) (local_dofs B)"
    by (rule map_cong) (simp_all add: local_index_snoc)
  moreover have "map (local_index (B @ [n])) (map (Pair (length B)) [0..<n])
                 = map (\<lambda>i. i + ndof B) [0..<n]"
    by (simp add: local_index_def get_dof_offset_def ndof_def comp_def)
  moreover have "map (\<lambda>i. i + ndof B) [0..<n] = [ndof B..<ndof B + n]"
    by (simp add: map_add_upt add.commute)
  moreover have "[0..<ndof B] @ [ndof B..<ndof B + n] = [0..<ndof B + n]"
    using upt_add_eq_append [of 0 "ndof B" n] by simp
  moreover have "ndof (B @ [n]) = ndof B + n"
    by (simp add: ndof_def)
  ultimately show ?case
    using snoc by (simp only: local_dofs_snoc map_append)
qed

lemma length_local_dofs: "length (local_dofs B) = ndof B"
  using arg_cong [OF local_index_dofs, of length B] by simp

lemma fold_update_range:
  "map key ps = [n..<n + length ps] \<Longrightarrow> n + length ps \<le> length d \<Longrightarrow>
   fold (\<lambda>p d. d[key p := val p]) ps d = take n d @ map val ps @ drop (n + length ps) d"
proof (induction ps arbitrary: n d)
  case Nil
  then show ?case by simp
next
  case (Cons p ps)
  from Cons.prems(1) have k: "key p = n" and r: "map key ps = [Suc n..<Suc n + length ps]"
    using upt_rec [of n "n + length (p # ps)"] by simp_all
  from Cons.prems(2) have l: "Suc n + length ps \<le> length (d[n := val p])" and n: "n < length d"
    by simp_all
  have "fold (\<lambda>p d. d[key p := val p]) (p # ps) d
        = fold (\<lambda>p d. d[key p := val p]) ps (d[n := val p])"
    by (simp add: k)
  also have "\<dots> = take (Suc n) (d[n := val p]) @ map val ps
                    @ drop (Suc n + length ps) (d[n := val p])"
    by (rule Cons.IH [OF r l])
  also have "take (Suc n) (d[n := val p]) = take n d @ [val p]"
    using n by (simp add: take_Suc_conv_app_nth)
  also have "drop (Suc n + length ps) (d[n := val p]) = drop (Suc n + length ps) d"
    by simp
  finally show ?case by simp
qed

lemma fold_GET:
  "fold (\<lambda>(b, i). operate_dof GET m B elem b i) ps (v, dof) =
   (v, fold (\<lambda>p d. d[local_index B p := of_int (dof_sign m elem p) * v (dof_global m elem p)])
         ps dof)"
  by (induction ps arbitrary: dof)
     (auto simp: operate_dof_def local_index_def dof_sign_def dof_global_def Let_def)

lemma operate_dof_ADD:
  "operate_dof ADD m B elem b i (v, dof) =
   (v(dof_global m elem (b, i) := v (dof_global m elem (b, i))
        + of_int (dof_sign m elem (b, i)) * dof ! local_index B (b, i)), dof)"
  by (simp add: operate_dof_def Let_def local_index_def dof_sign_def dof_global_def)

lemma fold_ADD:
  "fold (\<lambda>(b, i). operate_dof ADD m B elem b i) ps (v, dof) =
   (\<lambda>g. v g + sum_list (map (\<lambda>p. of_int (dof_sign m elem p) * dof ! local_index B p)
                        (filter (\<lambda>p. dof_global m elem p = g) ps)), dof)"
proof (induction ps arbitrary: v)
  case Nil
  show ?case by simp
next
  case (Cons p ps)
  obtain b i where p: "p = (b, i)" by (cases p)
  show ?case
    by (simp add: p operate_dof_ADD Cons.IH fun_eq_iff add.assoc)
qed

lemma get_element_values_eq:
  assumes "length dof = ndof B"
  shows "get_element_values m B elem (v, dof) = (v, gathered m B elem v)"
proof (cases "0 < nbasis B")
  case True
  have "map (local_index B) (local_dofs B) = [0..<0 + length (local_dofs B)]"
    by (simp add: local_index_dofs length_local_dofs)
  moreover have "0 + length (local_dofs B) \<le> length dof"
    by (simp add: assms length_local_dofs)
  ultimately have "fold (\<lambda>p d. d[local_index B p :=
                       of_int (dof_sign m elem p) * v (dof_global m elem p)]) (local_dofs B) dof
        = take 0 dof @ map (\<lambda>p. of_int (dof_sign m elem p) * v (dof_global m elem p)) (local_dofs B)
          @ drop (0 + length (local_dofs B)) dof"
    by (rule fold_update_range)
  with True assms show ?thesis
    by (simp add: get_element_values_def operate_element_values_pairs fold_GET
          length_local_dofs gathered_def)
next
  case False
  with assms show ?thesis
    by (simp add: get_element_values_def local_dofs_Nil ndof_def nbasis_def gathered_def)
qed

lemma add_element_values_eq:
  "add_element_values m B elem (v, dof) = (scattered m B elem dof v, dof)"
proof (cases "0 < nbasis B")
  case True
  then show ?thesis
    by (simp add: add_element_values_def operate_element_values_pairs fold_ADD scattered_def)
next
  case False
  then show ?thesis
    by (simp add: add_element_values_def local_dofs_Nil scattered_def)
qed

lemma nth_local_index:
  assumes "p \<in> set (local_dofs B)"
  shows "map f (local_dofs B) ! local_index B p = f p" and "local_index B p < ndof B"
proof -
  from assms obtain k where k: "k < length (local_dofs B)" "local_dofs B ! k = p"
    by (auto simp: in_set_conv_nth)
  have "map (local_index B) (local_dofs B) ! k = [0..<ndof B] ! k"
    by (simp only: local_index_dofs)
  with k have "local_index B p = k"
    by (simp add: length_local_dofs)
  with k show "map f (local_dofs B) ! local_index B p = f p" and "local_index B p < ndof B"
    by (simp_all add: length_local_dofs)
qed

lemma in_local_dofs:
  "(b, i) \<in> set (local_dofs B) \<longleftrightarrow> b < nbasis B \<and> i < get_ndof B b"
  by (force simp: local_dofs_def)

lemma unit_sign_square:
  "unit_signs m B elem \<Longrightarrow> p \<in> set (local_dofs B) \<Longrightarrow>
   of_int (dof_sign m elem p) * (of_int (dof_sign m elem p) * x) = (x :: 'a::comm_ring_1)"
  by (auto simp: unit_signs_def list_all_iff)

lemma get_then_add:
  assumes len: "length dof = ndof B" and signs: "unit_signs m B elem"
  shows "fst (add_element_values m B elem (get_element_values m B elem (v, dof))) g =
         v g + of_nat (length (filter (\<lambda>p. dof_global m elem p = g) (local_dofs B))) * v g"
proof -
  let ?G = "map (\<lambda>p. of_int (dof_sign m elem p) * v (dof_global m elem p)) (local_dofs B)"
  let ?F = "filter (\<lambda>p. dof_global m elem p = g) (local_dofs B)"
  have "map (\<lambda>p. of_int (dof_sign m elem p) * ?G ! local_index B p) ?F = map (\<lambda>p. v g) ?F"
  proof (rule map_cong [OF refl])
    fix p assume "p \<in> set ?F"
    then have p: "p \<in> set (local_dofs B)" and g: "dof_global m elem p = g" by simp_all
    show "of_int (dof_sign m elem p) * ?G ! local_index B p = v g"
      by (simp only: nth_local_index(1) [OF p] unit_sign_square [OF signs p] g)
  qed
  then have "sum_list (map (\<lambda>p. of_int (dof_sign m elem p) * ?G ! local_index B p) ?F)
             = sum_list (map (\<lambda>p. v g) ?F)"
    by (rule arg_cong)
  also have "\<dots> = of_nat (length ?F) * v g"
    by (rule sum_list_triv)
  finally have "sum_list (map (\<lambda>p. of_int (dof_sign m elem p) * ?G ! local_index B p) ?F)
             = of_nat (length ?F) * v g" .
  then show ?thesis
    by (simp add: get_element_values_eq [OF len] add_element_values_eq gathered_def scattered_def)
qed

lemma count_distinct:
  "distinct (map f xs) \<Longrightarrow>
   length (filter (\<lambda>p. f p = g) xs) = (if g \<in> set (map f xs) then 1 else 0)"
  by (induction xs) auto

lemma get_element_values_nth:
  assumes "length dof = ndof B" and "b < nbasis B" and "i < get_ndof B b"
  shows "get_element_values m B elem (v, dof) = (v', dof') \<Longrightarrow>
         v' = v \<and> dof' ! (i + get_dof_offset B b)
           = of_int (get_global_dof_sign m elem b i) * v (get_global_dof m elem b i)"
proof -
  have p: "(b, i) \<in> set (local_dofs B)"
    using assms(2,3) by (simp add: in_local_dofs)
  assume "get_element_values m B elem (v, dof) = (v', dof')"
  then show ?thesis
    using nth_local_index(1) [OF p, of "\<lambda>p. of_int (dof_sign m elem p) * v (dof_global m elem p)"]
    by (auto simp: get_element_values_eq [OF assms(1)] gathered_def local_index_def dof_sign_def
          dof_global_def)
qed

lemma add_element_values_commute:
  "fst (add_element_values m B e1 (fst (add_element_values m B e2 (v, dof2)), dof1)) =
   fst (add_element_values m B e2 (fst (add_element_values m B e1 (v, dof1)), dof2))"
  by (simp add: add_element_values_eq scattered_def fun_eq_iff add.assoc add.left_commute
        add.commute)

section \<open>The element matrix\<close>

lemma get_dof_groups:
  "b < nbasis B \<Longrightarrow>
   get_dof m B elem b st =
     fold (\<lambda>b. fold (get_dof_entry m B elem b) [0..<get_ndof B b]) [b..<nbasis B] st"
proof (induction m B elem b st rule: get_dof.induct)
  case (1 m B elem b st)
  show ?case
  proof (cases "b + 1 < nbasis B")
    case True
    with 1 show ?thesis
      by (subst get_dof.simps) (simp add: upt_conv_Cons Let_def)
  next
    case False
    with 1 have "[b..<nbasis B] = [b]" by (simp add: upt_conv_Cons)
    with False show ?thesis
      by (subst get_dof.simps) (simp add: Let_def)
  qed
qed

lemma fold_get_dof_entry:
  "fold (\<lambda>(b, i). get_dof_entry m B elem b i) ps (dof, sign) =
   (fold (\<lambda>p d. d[local_index B p := dof_global m elem p]) ps dof,
    fold (\<lambda>p s. s[local_index B p := dof_sign m elem p]) ps sign)"
  by (induction ps arbitrary: dof sign)
     (auto simp: get_dof_entry_def local_index_def dof_sign_def dof_global_def Let_def)

lemma fold_update_all:
  assumes "length d = ndof B"
  shows "fold (\<lambda>p d. d[local_index B p := val p]) (local_dofs B) d = map val (local_dofs B)"
proof -
  have "map (local_index B) (local_dofs B) = [0..<0 + length (local_dofs B)]"
    by (simp add: local_index_dofs length_local_dofs)
  moreover have "0 + length (local_dofs B) \<le> length d"
    by (simp add: assms length_local_dofs)
  ultimately have "fold (\<lambda>p d. d[local_index B p := val p]) (local_dofs B) d
        = take 0 d @ map val (local_dofs B) @ drop (0 + length (local_dofs B)) d"
    by (rule fold_update_range)
  with assms show ?thesis
    by (simp add: length_local_dofs)
qed

lemma get_dof_eq:
  assumes "length dof0 = ndof B" and "length sign0 = ndof B"
  shows "(if nbasis B > 0 then get_dof m B elem 0 (dof0, sign0) else (dof0, sign0)) =
         (map (dof_global m elem) (local_dofs B), map (dof_sign m elem) (local_dofs B))"
proof (cases "0 < nbasis B")
  case True
  then show ?thesis
    by (simp add: get_dof_groups fold_groups_pairs fold_get_dof_entry
          fold_update_all [OF assms(1)] fold_update_all [OF assms(2)]
          local_dofs_def [symmetric])
next
  case False
  with assms show ?thesis
    by (simp add: local_dofs_Nil ndof_def nbasis_def)
qed

lemma row_col_unique:
  fixes n :: nat
  assumes "j < n" and "j' < n" and "i * n + j = i' * n + j'"
  shows "i = i'" and "j = j'"
proof -
  have "(i * n + j) div n = i" "(i' * n + j') div n = i'"
    using assms(1,2) by simp_all
  with assms(3) show "i = i'" by simp
  with assms(3) show "j = j'" by simp
qed

lemma length_scale_row [simp]:
  "length (fold (\<lambda>j. scale_entry B sign i j) js A) = length A"
  by (induction js arbitrary: A) (simp_all add: scale_entry_def)

lemma scale_entry_nth:
  "k < length A \<Longrightarrow>
   scale_entry B sign i j A ! k =
     (if k = FEMat_index B i j then of_int (sign ! i * sign ! j) * A ! k else A ! k)"
  by (simp add: scale_entry_def)

lemma scale_row:
  assumes "j < ndof B" and "mm \<le> ndof B" and "(i + 1) * ndof B \<le> length A"
  shows "fold (\<lambda>j. scale_entry B sign i j) [0..<mm] A ! FEMat_index B i' j =
         (if i' = i \<and> j < mm then of_int (sign ! i * sign ! j) * A ! FEMat_index B i j
          else A ! FEMat_index B i' j)"
  using assms(2)
proof (induction mm)
  case 0
  show ?case by simp
next
  case (Suc mm)
  let ?A = "fold (\<lambda>j. scale_entry B sign i j) [0..<mm] A"
  have mm: "mm < ndof B" "mm \<le> ndof B" using Suc.prems by simp_all
  have "i * ndof B + mm < i * ndof B + ndof B" using mm(1) by simp
  with assms(3) have inr: "FEMat_index B i mm < length A"
    by (simp add: FEMat_index_def)
  show ?case
  proof (cases "i' = i \<and> j = mm")
    case True
    then show ?thesis
      using inr Suc.IH [OF mm(2)]
      by (simp add: scale_entry_nth)
  next
    case False
    then have "FEMat_index B i' j \<noteq> FEMat_index B i mm"
      using row_col_unique [OF assms(1) mm(1), of i' i] by (auto simp: FEMat_index_def)
    then show ?thesis
      using False Suc.IH [OF mm(2)]
      by (cases "FEMat_index B i' j < length A") (auto simp: scale_entry_nth scale_entry_def)
  qed
qed

lemma length_scale_rows [simp]:
  "length (fold (\<lambda>i. fold (\<lambda>j. scale_entry B sign i j) js) is A) = length A"
  by (induction "is" arbitrary: A) simp_all

lemma scale_rows:
  assumes "j < ndof B" and "r \<le> ndof B" and "length A = ndof B * ndof B"
  shows "fold (\<lambda>i. fold (\<lambda>j. scale_entry B sign i j) [0..<ndof B]) [0..<r] A ! FEMat_index B i j =
         (if i < r then of_int (sign ! i * sign ! j) * A ! FEMat_index B i j
          else A ! FEMat_index B i j)"
  using assms(2)
proof (induction r)
  case 0
  show ?case by simp
next
  case (Suc r)
  let ?A = "fold (\<lambda>i. fold (\<lambda>j. scale_entry B sign i j) [0..<ndof B]) [0..<r] A"
  have r: "r < ndof B" "r \<le> ndof B" using Suc.prems by simp_all
  then have "(r + 1) * ndof B \<le> ndof B * ndof B"
    by (metis Suc_eq_plus1 Suc_leI mult_le_mono1)
  then have "(r + 1) * ndof B \<le> length ?A"
    by (simp add: assms(3))
  from scale_row [OF assms(1) order_refl this, of sign i]
  show ?case
    using Suc.IH [OF r(2)] Suc.IH [OF r(2)] assms(1)
    by (auto simp: less_Suc_eq)
qed


section \<open>The engine and the consistency check\<close>

lemma get_element_values_vec: "fst (get_element_values m B elem (v, dof)) = v"
  by (cases "0 < nbasis B") (simp_all add: get_element_values_def operate_element_values_pairs fold_GET)

lemma gather_view: "fst (gather i ev) = ev"
proof -
  obtain v dof' where g: "get_element_values (ev_mesh ev) (ev_basis ev) i
                            (ev_vec ev, FEDof (ev_basis ev) i) = (v, dof')"
    by (cases "get_element_values (ev_mesh ev) (ev_basis ev) i (ev_vec ev, FEDof (ev_basis ev) i)")
  with get_element_values_vec [of "ev_mesh ev" "ev_basis ev" i "ev_vec ev" "FEDof (ev_basis ev) i"]
  have "v = ev_vec ev" by simp
  with g show ?thesis
    by (simp add: gather_def ev_get_element_values_def)
qed

lemma add_residual_element_inputs:
  "add_residual_element C i (elem_data, elem_geo, elem_sol, elem_res) = (d', g', s', r') \<Longrightarrow>
   d' = elem_data \<and> g' = elem_geo \<and> s' = elem_sol"
  using gather_view [of i elem_data] gather_view [of i elem_geo] gather_view [of i elem_sol]
  by (auto simp: add_residual_element_def Let_def split: prod.splits)

lemma add_residual_inputs_unchanged:
  "add_residual C (elem_data, elem_geo, elem_sol, elem_res) = (d', g', s', r') \<Longrightarrow>
   d' = elem_data \<and> g' = elem_geo \<and> s' = elem_sol"
proof -
  have "fold (add_residual_element C) es (elem_data, elem_geo, elem_sol, elem_res) = (d', g', s', r')
        \<Longrightarrow> d' = elem_data \<and> g' = elem_geo \<and> s' = elem_sol" for es
  proof (induction es arbitrary: elem_res)
    case Nil
    then show ?case by simp
  next
    case (Cons e es)
    obtain d1 g1 s1 r1 where
      e: "add_residual_element C e (elem_data, elem_geo, elem_sol, elem_res) = (d1, g1, s1, r1)"
      by (metis prod_cases4)
    from add_residual_element_inputs [OF e] e Cons show ?case
      by simp
  qed
  then show "add_residual C (elem_data, elem_geo, elem_sol, elem_res) = (d', g', s', r') \<Longrightarrow>
   d' = elem_data \<and> g' = elem_geo \<and> s' = elem_sol"
    by (simp add: add_residual_def)
qed

lemma fold_in_place:
  "k \<le> length s \<Longrightarrow>
   fold (\<lambda>i s. s[i := f i (s ! i)]) [0..<k] s = map (\<lambda>i. f i (s ! i)) [0..<k] @ drop k s"
proof (induction k)
  case 0
  show ?case by simp
next
  case (Suc k)
  then have k: "k < length s" by simp
  let ?A = "map (\<lambda>i. f i (s ! i)) [0..<k]"
  have "fold (\<lambda>i s. s[i := f i (s ! i)]) [0..<Suc k] s
        = (?A @ drop k s)[k := f k ((?A @ drop k s) ! k)]"
    using Suc by simp
  also have "(?A @ drop k s) ! k = s ! k"
    using k by (simp add: nth_append)
  also have "(?A @ drop k s)[k := f k (s ! k)] = ?A @ (drop k s)[0 := f k (s ! k)]"
    by (simp add: list_update_append)
  also have "(drop k s)[0 := f k (s ! k)] = f k (s ! k) # drop (Suc k) s"
    using k by (simp add: Cons_nth_drop_Suc [symmetric])
  finally show ?case by simp
qed

lemma perturb_in_place:
  assumes "length s = n" and "length p = n"
  shows "fold (\<lambda>i s. s[i := s ! i + h * p ! i]) [0..<n] s = perturbed s h p"
proof -
  have "fold (\<lambda>i s. s[i := s ! i + h * p ! i]) [0..<n] s = map (\<lambda>i. s ! i + h * p ! i) [0..<n]"
    using fold_in_place [of n s "\<lambda>i a. a + h * p ! i"] assms by simp
  also have "\<dots> = perturbed s h p"
    using assms by (auto simp: perturbed_def intro!: nth_equalityI)
  finally show ?thesis .
qed

section \<open>Linearity of the assembled product\<close>

lemma gather_eq: "gather i ev = (ev, gathered (ev_mesh ev) (ev_basis ev) i (ev_vec ev))"
proof -
  have "length (FEDof (ev_basis ev) i :: 'a list) = ndof (ev_basis ev)"
    by (simp add: FEDof_def)
  then show ?thesis
    by (simp add: gather_def ev_get_element_values_def get_element_values_eq)
qed

lemma ev_add_element_values_eq:
  "ev_add_element_values i (ev, dof) =
   (ev\<lparr>ev_vec := scattered (ev_mesh ev) (ev_basis ev) i dof (ev_vec ev)\<rparr>, dof)"
  by (simp add: ev_add_element_values_def add_element_values_eq)

lemma QptSpace_cong:
  "(\<And>j. j < get_num_points C \<Longrightarrow> f j = g j) \<Longrightarrow> QptSpace C f = QptSpace C g"
  by (simp add: QptSpace_def)

lemma QptSpace_nth: "j < get_num_points C \<Longrightarrow> QptSpace C f ! j = f j"
  by (simp add: QptSpace_def)

lemma jvp_point_operator:
  "jvp_point C data geo sol xsol j =
   point_operator C (data ! j) (geo ! j) (sol ! j) j (xsol ! j)"
  by (simp add: jvp_point_def point_operator_def Let_def split: prod.splits)

lemma add_jacobian_vector_product_element_eq:
  "add_jacobian_vector_product_element C i (elem_data, elem_geo, elem_sol, elem_xvec, elem_yvec) =
   (elem_data, elem_geo, elem_sol, elem_xvec,
    elem_yvec\<lparr>ev_vec := scattered (ev_mesh elem_yvec) (ev_basis elem_yvec) i
       (Basis_add C
          (jvp_values C elem_data elem_geo elem_sol i
             (gathered (ev_mesh elem_xvec) (ev_basis elem_xvec) i (ev_vec elem_xvec)))
          (gathered (ev_mesh elem_yvec) (ev_basis elem_yvec) i (ev_vec elem_yvec)))
       (ev_vec elem_yvec)\<rparr>)"
proof -
  have "QptSpace C (jvp_point C (QptSpace C fd) (QptSpace C fg) (QptSpace C fs) (QptSpace C fx))
        = QptSpace C (\<lambda>j. point_operator C (fd j) (fg j) (fs j) j (fx j))" for fd fg fs fx
    by (rule QptSpace_cong) (simp add: jvp_point_operator QptSpace_nth)
  then show ?thesis
    by (simp add: add_jacobian_vector_product_element_def gather_eq ev_add_element_values_eq
          jvp_values_def)
qed


lemma fold_add_jacobian_vector_product_element:
  "fold (add_jacobian_vector_product_element C) es
     (elem_data, elem_geo, elem_sol, \<lparr>ev_mesh = m, ev_basis = B, ev_vec = x\<rparr>,
      \<lparr>ev_mesh = m, ev_basis = B, ev_vec = y\<rparr>) =
   (elem_data, elem_geo, elem_sol, \<lparr>ev_mesh = m, ev_basis = B, ev_vec = x\<rparr>,
    \<lparr>ev_mesh = m, ev_basis = B,
     ev_vec = fold (element_product C elem_data elem_geo elem_sol m B x) es y\<rparr>)"
  by (induction es arbitrary: y)
     (simp_all add: add_jacobian_vector_product_element_eq element_product_def)

lemma assembled_product_eq:
  "assembled_product C elem_data elem_geo elem_sol m B x y =
   fold (element_product C elem_data elem_geo elem_sol m B x)
     [0..<get_num_elements (ev_mesh elem_geo)] y"
  by (simp add: assembled_product_def add_jacobian_vector_product_def
        fold_add_jacobian_vector_product_element)

lemma length_lincomb [simp]: "length (lincomb a u b v) = min (length u) (length v)"
  by (simp add: lincomb_def)

lemma nth_lincomb:
  "k < length u \<Longrightarrow> k < length v \<Longrightarrow> lincomb a u b v ! k = a * u ! k + b * v ! k"
  by (simp add: lincomb_def)

lemma lincomb_map:
  "lincomb a (map f xs) b (map g xs) = map (\<lambda>x. a * f x + b * g x) xs"
  by (simp add: lincomb_def map2_map_map)

lemma linear_map_compose:
  "linear_map n k f \<Longrightarrow> linear_map k l g \<Longrightarrow> linear_map n l (\<lambda>u. g (f u))"
  by (simp add: linear_map_def)

lemma length_gathered [simp]: "length (gathered m B i v) = ndof B"
  by (simp add: gathered_def length_local_dofs)

lemma gathered_lincomb:
  "gathered m B i (\<lambda>g. a * v1 g + b * v2 g) = lincomb a (gathered m B i v1) b (gathered m B i v2)"
  by (simp add: gathered_def lincomb_map algebra_simps)

lemma sum_list_lincomb:
  fixes a b :: "'a::comm_ring_1"
  shows "sum_list (map (\<lambda>p. a * f p + b * h p) xs) = a * sum_list (map f xs) + b * sum_list (map h xs)"
  by (induction xs) (simp_all add: algebra_simps)

lemma scattered_lincomb:
  assumes "length d1 = ndof B" and "length d2 = ndof B"
  shows "scattered m B i (lincomb a d1 b d2) (\<lambda>g. a * y1 g + b * y2 g) =
         (\<lambda>g. a * scattered m B i d1 y1 g + b * scattered m B i d2 y2 g)"
proof
  fix g
  let ?F = "filter (\<lambda>p. dof_global m i p = g) (local_dofs B)"
  have "map (\<lambda>p. of_int (dof_sign m i p) * lincomb a d1 b d2 ! local_index B p) ?F =
        map (\<lambda>p. a * (of_int (dof_sign m i p) * d1 ! local_index B p)
                + b * (of_int (dof_sign m i p) * d2 ! local_index B p)) ?F"
  proof (rule map_cong [OF refl])
    fix p assume "p \<in> set ?F"
    then have "local_index B p < ndof B"
      by (simp add: nth_local_index(2))
    then show "of_int (dof_sign m i p) * lincomb a d1 b d2 ! local_index B p =
               a * (of_int (dof_sign m i p) * d1 ! local_index B p)
                + b * (of_int (dof_sign m i p) * d2 ! local_index B p)"
      using assms by (simp add: nth_lincomb algebra_simps)
  qed
  then have "sum_list (map (\<lambda>p. of_int (dof_sign m i p) * lincomb a d1 b d2 ! local_index B p) ?F) =
        sum_list (map (\<lambda>p. a * (of_int (dof_sign m i p) * d1 ! local_index B p)
                + b * (of_int (dof_sign m i p) * d2 ! local_index B p)) ?F)"
    by (rule arg_cong)
  also have "\<dots> = a * sum_list (map (\<lambda>p. of_int (dof_sign m i p) * d1 ! local_index B p) ?F)
                  + b * sum_list (map (\<lambda>p. of_int (dof_sign m i p) * d2 ! local_index B p) ?F)"
    by (rule sum_list_lincomb)
  finally show "scattered m B i (lincomb a d1 b d2) (\<lambda>g. a * y1 g + b * y2 g) g =
             a * scattered m B i d1 y1 g + b * scattered m B i d2 y2 g"
    by (simp add: scattered_def algebra_simps)
qed

lemma point_operator_linear:
  assumes "linear_collaborators C n"
  shows "linear_map (ncomp C) (ncomp C) (point_operator C dataj gref sref j)"
proof -
  obtain detJ J Jinv where t: "jacobian_transformation C gref = (detJ, J, Jinv)"
    by (cases "jacobian_transformation C gref")
  have a: "linear_map (ncomp C) (ncomp C) (transform C detJ J Jinv)"
    and b: "linear_map (ncomp C) (ncomp C)
              (JacVecProduct C (get_weight C j * detJ) dataj gref (transform C detJ J Jinv sref))"
    and c: "linear_map (ncomp C) (ncomp C) (rtransform C detJ J Jinv)"
    using assms by (simp_all add: linear_collaborators_def)
  have "point_operator C dataj gref sref j =
        (\<lambda>xref. rtransform C detJ J Jinv
           (JacVecProduct C (get_weight C j * detJ) dataj gref (transform C detJ J Jinv sref)
              (transform C detJ J Jinv xref)))"
    by (simp add: point_operator_def t fun_eq_iff)
  then show ?thesis
    using linear_map_compose [OF linear_map_compose [OF a b] c] by simp
qed

lemma jvp_values_linear:
  assumes "linear_collaborators C n" and "length d1 = n" and "length d2 = n"
  shows "jvp_values C elem_data elem_geo elem_sol i (lincomb a d1 b d2) =
         map2 (\<lambda>y1 y2. lincomb a y1 b y2)
           (jvp_values C elem_data elem_geo elem_sol i d1)
           (jvp_values C elem_data elem_geo elem_sol i d2)"
    and "is_QSpace C (jvp_values C elem_data elem_geo elem_sol i d1)"
proof -
  have lin: "linear_map n (ncomp C) (\<lambda>dof. point_operator C dataj gref sref j (Basis_interp C dof j))"
    for dataj gref sref j
  proof -
    have "linear_map n (ncomp C) (\<lambda>dof. Basis_interp C dof j)"
      using assms(1) by (simp add: linear_collaborators_def)
    from linear_map_compose [OF this point_operator_linear [OF assms(1)]]
    show ?thesis .
  qed
  show "jvp_values C elem_data elem_geo elem_sol i (lincomb a d1 b d2) =
         map2 (\<lambda>y1 y2. lincomb a y1 b y2)
           (jvp_values C elem_data elem_geo elem_sol i d1)
           (jvp_values C elem_data elem_geo elem_sol i d2)"
    using lin assms(2,3)
    by (simp add: jvp_values_def QptSpace_def map2_map_map linear_map_def)
  show "is_QSpace C (jvp_values C elem_data elem_geo elem_sol i d1)"
    using lin assms(2)
    by (simp add: jvp_values_def QptSpace_def is_QSpace_def list_all_iff linear_map_def)
qed

lemma element_product_linear:
  assumes "linear_collaborators C (ndof B)"
  shows "element_product C elem_data elem_geo elem_sol m B (\<lambda>g. a * x1 g + b * x2 g) i
           (\<lambda>g. a * y1 g + b * y2 g) =
         (\<lambda>g. a * element_product C elem_data elem_geo elem_sol m B x1 i y1 g
             + b * element_product C elem_data elem_geo elem_sol m B x2 i y2 g)"
proof -
  let ?Y1 = "jvp_values C elem_data elem_geo elem_sol i (gathered m B i x1)"
  let ?Y2 = "jvp_values C elem_data elem_geo elem_sol i (gathered m B i x2)"
  have q: "is_QSpace C ?Y1" "is_QSpace C ?Y2"
    by (rule jvp_values_linear(2) [OF assms length_gathered length_gathered])+
  have l: "length (Basis_add C ?Y1 (gathered m B i y1)) = ndof B"
          "length (Basis_add C ?Y2 (gathered m B i y2)) = ndof B"
    using assms q by (simp_all add: linear_collaborators_def)
  have "Basis_add C (jvp_values C elem_data elem_geo elem_sol i
                       (gathered m B i (\<lambda>g. a * x1 g + b * x2 g)))
          (gathered m B i (\<lambda>g. a * y1 g + b * y2 g)) =
        lincomb a (Basis_add C ?Y1 (gathered m B i y1)) b (Basis_add C ?Y2 (gathered m B i y2))"
    using assms q
    by (simp add: gathered_lincomb jvp_values_linear(1) [OF assms length_gathered length_gathered]
          linear_collaborators_def)
  then show ?thesis
    by (simp add: element_product_def scattered_lincomb [OF l])
qed

lemma fold_element_product_linear:
  assumes "linear_collaborators C (ndof B)"
  shows "fold (element_product C elem_data elem_geo elem_sol m B (\<lambda>g. a * x1 g + b * x2 g)) es
           (\<lambda>g. a * y1 g + b * y2 g) =
         (\<lambda>g. a * fold (element_product C elem_data elem_geo elem_sol m B x1) es y1 g
             + b * fold (element_product C elem_data elem_geo elem_sol m B x2) es y2 g)"
  by (induction es arbitrary: y1 y2) (simp_all add: element_product_linear [OF assms])

lemma singleton_list: "length u = Suc 0 \<Longrightarrow> \<exists>x. u = [x]"
  by (cases u) simp_all

lemma linear_map_identity: "linear_map n n (\<lambda>u. u)"
  by (simp add: linear_map_def)

lemma linear_map_scale: "linear_map n n (map ((*) (w :: 'a::comm_ring_1)))"
  unfolding linear_map_def
proof (intro conjI allI impI)
  fix a b :: 'a and u v :: "'a list"
  assume "length u = n" and "length v = n"
  then show "map ((*) w) (lincomb a u b v) = lincomb a (map ((*) w) u) b (map ((*) w) v)"
    by (intro nth_equalityI) (simp_all add: nth_lincomb algebra_simps)
qed simp

lemma linear_identity_weak_form: "linear_collaborators identity_weak_form (ndof [1])"
proof -
  have add: "Basis_add identity_weak_form Y dof = map2 (+) dof (hd Y)"
    if "is_QSpace identity_weak_form Y" for Y dof
  proof -
    from that obtain y where "Y = [y]"
      using singleton_list [of Y] by (auto simp: is_QSpace_def identity_weak_form_def)
    then show ?thesis by (simp add: identity_weak_form_def)
  qed
  have len: "length (hd Y) = 1" "length Y = 1" if "is_QSpace identity_weak_form Y" for Y
    using that singleton_list [of Y] by (auto simp: is_QSpace_def identity_weak_form_def)
  have q: "is_QSpace identity_weak_form (map2 (\<lambda>y1 y2. lincomb a y1 b y2) Y1 Y2)"
    and h: "hd (map2 (\<lambda>y1 y2. lincomb a y1 b y2) Y1 Y2) = lincomb a (hd Y1) b (hd Y2)"
    if "is_QSpace identity_weak_form Y1" "is_QSpace identity_weak_form Y2" for a b Y1 Y2
    using that singleton_list [of Y1] singleton_list [of Y2]
    by (auto simp: is_QSpace_def identity_weak_form_def)
  have lin: "map2 (+) (lincomb a d1 b d2) (lincomb a y1 b y2)
             = lincomb a (map2 (+) d1 y1) b (map2 (+) d2 y2)"
    if "length d1 = 1" "length d2 = 1" "length y1 = 1" "length y2 = 1"
    for a b :: int and d1 d2 y1 y2
    using that by (intro nth_equalityI) (simp_all add: nth_lincomb algebra_simps)
  have n: "ncomp identity_weak_form = 1" "ndof [1] = 1"
    by (simp_all add: identity_weak_form_def ndof_def)
  have "linear_map 1 1 (\<lambda>dof. Basis_interp identity_weak_form dof j)" for j
    using linear_map_identity [of 1] by (simp add: identity_weak_form_def)
  moreover have "linear_map 1 1 (transform identity_weak_form detJ J Jinv)"
    and "linear_map 1 1 (rtransform identity_weak_form detJ J Jinv)" for detJ J Jinv
    using linear_map_identity [of 1] by (simp_all add: identity_weak_form_def)
  moreover have "linear_map 1 1 (JacVecProduct identity_weak_form w data geo s)" for w data geo s
    using linear_map_scale [of 1 w] by (simp add: identity_weak_form_def)
  moreover have "length (Basis_add identity_weak_form Y dof) = 1"
    if "is_QSpace identity_weak_form Y" "length dof = 1" for Y dof
    using that len [OF that(1)] by (simp add: add)
  moreover have "Basis_add identity_weak_form (map2 (\<lambda>y1 y2. lincomb a y1 b y2) Y1 Y2)
                   (lincomb a dof1 b dof2)
        = lincomb a (Basis_add identity_weak_form Y1 dof1) b (Basis_add identity_weak_form Y2 dof2)"
    if "is_QSpace identity_weak_form Y1" "is_QSpace identity_weak_form Y2"
       "length dof1 = 1" "length dof2 = 1" for a b Y1 Y2 dof1 dof2
    using that len(1) [OF that(1)] len(1) [OF that(2)]
    by (simp add: add q h lin)
  ultimately show ?thesis
    unfolding linear_collaborators_def n by blast
qed

lemma assembled_product_jointly_linear:
  assumes "linear_collaborators C (ndof B)"
  shows "assembled_product C elem_data elem_geo elem_sol m B
           (\<lambda>g. a * x1 g + b * x2 g) (\<lambda>g. a * y1 g + b * y2 g) g =
         a * assembled_product C elem_data elem_geo elem_sol m B x1 y1 g
       + b * assembled_product C elem_data elem_geo elem_sol m B x2 y2 g"
  unfolding assembled_product_eq
  by (simp add: fold_element_product_linear [OF assms])

lemma assembled_product_linear_from_zero:
  assumes "linear_collaborators C (ndof B)"
  shows "assembled_product C elem_data elem_geo elem_sol m B (\<lambda>g. a * x1 g + b * x2 g) (\<lambda>g. 0) g =
         a * assembled_product C elem_data elem_geo elem_sol m B x1 (\<lambda>g. 0) g
       + b * assembled_product C elem_data elem_geo elem_sol m B x2 (\<lambda>g. 0) g"
  using assembled_product_jointly_linear [OF assms, of elem_data elem_geo elem_sol m a x1 b x2
          "\<lambda>g. 0" "\<lambda>g. 0" g]
  by simp

section \<open>Claims\<close>

text \<open>
  C1. Gathering element values sets, for every local degree of freedom \<open>i\<close> of every basis
  group of the element, the local value to \<open>sign(elem, i) * global[global_dof_index(elem, i)]\<close>,
  for the Serial and the Parallel strategy. The serial gather does so
  (\<open>get_element_values_nth\<close>). The parallel gather, \<open>init_values\<close>, steps from basis group
  \<open>nbasis - 1\<close> to \<open>nbasis - 3\<close>: on one element with three basis groups of one degree of
  freedom each, signs \<open>+1\<close> and global values 1, 2, 3 it leaves the entry of basis group 1
  at its old value 7, where the serial gather on the same input stores 2.
\<close>

theorem init_values_skips_basis_group:
  "(case init_values (single_element_mesh [1, 1, 1]) [1, 1, 1] (\<lambda>g. int g + 1, [[7, 7, 7]]) of
      Inr (v, elem_vec_array) \<Rightarrow> elem_vec_array = [[1, 7, 3]]
    | Inl e \<Rightarrow> False) \<and>
   snd (get_element_values (single_element_mesh [1, 1, 1]) [1, 1, 1] 0
          (\<lambda>g. int g + 1, FEDof [1, 1, 1] 0)) = [1, 2, 3]"
  by code_simp

text \<open>
  C2. \<open>add_residual\<close> changes the global array of the output view additively only (the final
  array is the initial array plus element contributions that do not depend on the initial
  content) and does not change the solution, geometry or data arrays. The three input
  views are returned unchanged (\<open>add_residual_inputs_unchanged\<close>). With the serial
  strategy the output is not additive: the output values of the element are gathered
  into \<open>res_dof\<close> before \<open>Basis::add\<close> accumulates into it, and \<open>add_element_values\<close> then adds
  them to the global array a second time. In the scenario of the specification (identity
  geometry, weak form \<open>w * s\<close>, solution of ones, one-point rule) a zero output becomes 1,
  an output of 5 becomes 11 and not 6, and on two elements that share their degree of
  freedom a zero output becomes 3 and not 2.
\<close>

theorem add_residual_regathers_output:
  "residual_of_ones (single_element_mesh [1]) 0 = 1 \<and>
   residual_of_ones (single_element_mesh [1]) 5 = 11 \<and>
   residual_of_ones shared_dof_mesh 0 = 3"
  by code_simp

text \<open>
  C3. Adding element values performs \<open>global[global_dof_index(elem, i)] += sign(elem, i) * dof[i]\<close>
  for every local degree of freedom of every basis group, for the Serial and the Parallel
  strategy, so that contributions accumulate independently of the order. The serial
  scatter does so (\<open>add_element_values_eq\<close>, \<open>add_element_values_commute\<close>). The parallel
  merge, \<open>add_values\<close>, steps from basis group \<open>nbasis - 1\<close> to \<open>nbasis - 3\<close>: on one element
  with three basis groups of one degree of freedom each, signs \<open>+1\<close>, element values 1, 2, 3
  and a global array of tens, the global entry of basis group 1 stays 10, where the serial
  scatter makes it 12.
\<close>

theorem add_values_skips_basis_group:
  "(case add_values (single_element_mesh [1, 1, 1]) [1, 1, 1] (\<lambda>g. 10 :: int, [[1, 2, 3]]) of
      Inr (v, elem_vec_array) \<Rightarrow> map v [0, 1, 2] = [11, 10, 13]
    | Inl e \<Rightarrow> False) \<and>
   map (fst (add_element_values (single_element_mesh [1, 1, 1]) [1, 1, 1] 0
               (\<lambda>g. 10 :: int, [1, 2, 3]))) [0, 1, 2] = [11, 12, 13]"
  by code_simp

text \<open>
  C4. For every element, solution state and direction, the dense element Jacobian that
  \<open>add_jacobian\<close> assembles, applied to the direction, equals the per-element output of
  \<open>add_jacobian_vector_product\<close> for the same inputs. The matrix-free path gathers the
  current output values of the element into \<open>y_dof\<close> before \<open>Basis::add\<close> accumulates into
  it, so the output of an element also holds what earlier elements left in its degrees
  of freedom. In the scenario of the specification on two elements that share their
  degree of freedom, with direction 7, both dense blocks are \<open>[1]\<close> and give 7; element 0
  adds 7 to the global entry and element 1 then adds 14, and the assembled product is 21
  where the two blocks give 14.
\<close>

theorem matrix_free_product_regathers_output:
  "map dense_block (jacobian_calls shared_dof_mesh) = [[1], [1]] \<and>
   map row_indices (jacobian_calls shared_dof_mesh) = [[0], [0]] \<and>
   product_element_output shared_dof_mesh 0 0 = 7 \<and>
   product_element_output shared_dof_mesh 1 7 = 14 \<and>
   product_of_sevens shared_dof_mesh = 21"
  by code_simp

text \<open>
  C5. The derivative consistency check estimates the directional derivative by a central
  real finite difference with step \<open>dh\<close> or, for a complex numeric type, by a complex step,
  and reports the relative error of each component against the analytic operator. As
  stated this fails for the real difference: for the weak form \<open>s * s\<close> at \<open>sref = 1\<close>,
  \<open>pref = 1\<close>, \<open>dh = 1\<close> the check prints the estimate 3, the central difference is 2.
\<close>

theorem consistency_check_not_central:
  "fd (TestPDEImplementation square_weak_form 1 [] [] [1] [1] ! 0) = Some 3 \<and>
   central_difference (pulled_back_coefficient square_weak_form [] []) [1] [1] 1 0 = 2"
  by code_simp

text \<open>
  C5, amended. For a step \<open>dh\<close> other than zero the check estimates each component of the
  directional derivative by the one-sided (forward) real finite difference
  \<open>(c(sref + dh * pref) - c(sref)) / dh\<close> of the pulled-back coefficient \<open>c\<close> or, when the
  numeric type is complex, by the complex step: it perturbs the reference solution by \<open>dh\<close>
  times the perturbation along the imaginary axis and divides the imaginary part of the
  pulled-back coefficient by \<open>dh\<close>. It reports, for each component, the estimate, the
  output of the analytic operator built at the perturbed state, and their difference
  relative to the estimate (no number when the estimate is zero).
\<close>

theorem consistency_check_estimates:
  assumes "dh \<noteq> 0"
    and "i < ncomp C" and "length sref = ncomp C" and "length pref = ncomp C"
    and "k < ncomp D" and "length zref = ncomp D" and "length qref = ncomp D"
  shows "TestPDEImplementation C dh data geo sref pref ! i =
           (let f = forward_difference (pulled_back_coefficient C data geo) sref pref dh i;
                J = analytic_derivative C data geo (perturbed sref dh pref) pref ! i
            in \<lparr>fd = Some f, Jpref = J, err = divide_double (f - J) f\<rparr>) \<and>
         TestPDEImplementation_complex D dh cdata cgeo zref qref ! k =
           (let f = complex_step (pulled_back_coefficient D cdata cgeo) zref qref dh k;
                J = analytic_derivative D cdata cgeo
                      (perturbed zref (complex_of_real dh * \<i>) qref) qref ! k
            in \<lparr>fd = Some f, Jpref = Re J,
                err = map_option Re (divide_double (complex_of_real f - J) (complex_of_real f))\<rparr>)"
proof -
  have r: "fold (\<lambda>i s. s[i := s ! i + dh * pref ! i]) [0..<ncomp C] sref = perturbed sref dh pref"
    by (rule perturb_in_place [OF assms(3,4)])
  have "(\<lambda>i s. s[i := s ! i + complex_of_real dh * qref ! i * \<i>])
        = (\<lambda>i s. s[i := s ! i + (complex_of_real dh * \<i>) * qref ! i])"
    by (simp add: mult_ac)
  then have c: "fold (\<lambda>i s. s[i := s ! i + complex_of_real dh * qref ! i * \<i>]) [0..<ncomp D] zref
           = perturbed zref (complex_of_real dh * \<i>) qref"
    by (simp only: perturb_in_place [OF assms(6,7)])
  show ?thesis
    using assms(1,2,5)
    by (simp add: TestPDEImplementation_def TestPDEImplementation_complex_def r c Let_def
          forward_difference_def complex_step_def divide_double_def)
qed

theorem consistency_check_estimates_witness:
  "dh_default \<noteq> 0 \<and>
   0 < ncomp (square_weak_form :: real collaborators) \<and>
   length [1 :: real] = ncomp (square_weak_form :: real collaborators) \<and>
   0 < ncomp (square_weak_form :: complex collaborators) \<and>
   length [1 :: complex] = ncomp (square_weak_form :: complex collaborators) \<and>
   TestPDEImplementation square_weak_form dh_default [] [] [1] [1] ! 0 =
     (let f = forward_difference (pulled_back_coefficient square_weak_form [] []) [1] [1] dh_default 0;
          J = analytic_derivative square_weak_form [] [] (perturbed [1] dh_default [1]) [1] ! 0
      in \<lparr>fd = Some f, Jpref = J, err = divide_double (f - J) f\<rparr>) \<and>
   TestPDEImplementation_complex square_weak_form dh_default [] [] [1] [1] ! 0 =
     (let f = complex_step (pulled_back_coefficient square_weak_form [] []) [1] [1] dh_default 0;
          J = analytic_derivative square_weak_form [] []
                (perturbed [1] (complex_of_real dh_default * \<i>) [1]) [1] ! 0
      in \<lparr>fd = Some f, Jpref = Re J,
          err = map_option Re (divide_double (complex_of_real f - J) (complex_of_real f))\<rparr>) \<and>
   forward_difference (pulled_back_coefficient square_weak_form [] []) [1] [1] dh_default 0
     = 2 + dh_default \<and>
   complex_step (pulled_back_coefficient square_weak_form [] []) [1] [1] dh_default 0 = 2"
proof -
  have h: "dh_default \<noteq> 0"
    by (simp add: dh_default_def)
  have n: "ncomp (square_weak_form :: real collaborators) = 1"
          "ncomp (square_weak_form :: complex collaborators) = 1"
    by (simp_all add: square_weak_form_def)
  have f: "forward_difference (pulled_back_coefficient square_weak_form [] []) [1] [1] dh_default 0
             = 2 + dh_default"
    using h by (simp add: forward_difference_def pulled_back_coefficient_def square_weak_form_def
          jacobian_transformation_def perturbed_def Let_def field_simps)
  have c: "complex_step (pulled_back_coefficient square_weak_form [] []) [1] [1] dh_default 0 = 2"
    using h by (simp add: complex_step_def pulled_back_coefficient_def square_weak_form_def
          jacobian_transformation_def perturbed_def Let_def field_simps)
  show ?thesis
    using h f c
      consistency_check_estimates [of dh_default 0 square_weak_form "[1]" "[1]" 0 square_weak_form
        "[1]" "[1]" "[]" "[]" "[]" "[]"]
    by (simp only: n) simp
qed

text \<open>
  C6. For every PDE whose directional-derivative operator is linear in its input, every
  solution state \<open>s\<close>, directions \<open>x1\<close>, \<open>x2\<close> and scalars \<open>a\<close>, \<open>b\<close>, the assembled
  Jacobian-vector product satisfies \<open>J(s) (a x1 + b x2) = a (J(s) x1) + b (J(s) x2)\<close>:
  \<open>add_jacobian_vector_product\<close> is linear in its \<open>x\<close> input. On a zero output array what the
  engine leaves is linear in \<open>x\<close> (\<open>assembled_product_linear_from_zero\<close>), and the array it
  leaves is linear in the pair of \<open>x\<close> and \<open>y\<close> (\<open>assembled_product_jointly_linear\<close>). What
  it adds to an output array that is not zero is not linear in \<open>x\<close>: the output values of
  the element are gathered into \<open>y_dof\<close> before \<open>Basis::add\<close> accumulates into it, so the
  array's own content is added as well. In the scenario of the specification, whose
  operator \<open>w * x\<close> is linear (\<open>linear_identity_weak_form\<close>), on one element with \<open>y[0] = 5\<close>:
  the direction 0 adds 5 and not 0, and the direction \<open>2 * 3 + 5 * 7\<close> adds 46, where twice
  what the direction 3 adds plus five times what the direction 7 adds is 76. On a zero
  array the same directions add 41 and \<open>2 * 3 + 5 * 7\<close>.
\<close>

theorem product_increment_not_linear:
  "product_increment (single_element_mesh [1]) 0 5 = 5 \<and>
   product_increment (single_element_mesh [1]) (2 * 3 + 5 * 7) 5 = 46 \<and>
   2 * product_increment (single_element_mesh [1]) 3 5
     + 5 * product_increment (single_element_mesh [1]) 7 5 = 76 \<and>
   product_increment (single_element_mesh [1]) (2 * 3 + 5 * 7) 0 = 41 \<and>
   2 * product_increment (single_element_mesh [1]) 3 0
     + 5 * product_increment (single_element_mesh [1]) 7 0 = 41"
  by code_simp

text \<open>
  C7. For an element whose global degrees of freedom are touched by no other element,
  \<open>get_element_values\<close> followed by \<open>add_element_values\<close> with the gathered values leaves each
  of the element's global entries at twice its original value. As stated this fails when
  two local degrees of freedom of the element itself are the same global one: on the
  collapsed element the entry 1 ends at 3.
\<close>

theorem round_trip_counterexample:
  "fst (add_element_values collapsed_element_mesh [2] 0
          (get_element_values collapsed_element_mesh [2] 0 (\<lambda>g. 1 :: int, FEDof [2] 0))) 0 = 3"
  by code_simp

text \<open>
  C7, amended. For an element with signs plus or minus one whose local degrees of freedom
  are pairwise distinct global ones, \<open>get_element_values\<close> followed by \<open>add_element_values\<close>
  with the gathered values leaves each of the element's global entries at twice its
  original value and every other global entry unchanged.
\<close>

theorem round_trip_doubles:
  assumes "length dof = ndof B" and "unit_signs m B elem"
    and "distinct (element_dofs m B elem)"
  shows "fst (add_element_values m B elem (get_element_values m B elem (v, dof))) g =
         (if g \<in> set (element_dofs m B elem) then 2 * v g else v g)"
  using assms(3) count_distinct [of "dof_global m elem" "local_dofs B" g]
  by (simp add: get_then_add [OF assms(1,2)] element_dofs_def)

theorem round_trip_doubles_witness:
  "length (FEDof [2, 2] 0 :: int list) = ndof [2, 2] \<and>
   unit_signs (flipped_element_mesh [2, 2]) [2, 2] 0 \<and>
   distinct (element_dofs (flipped_element_mesh [2, 2]) [2, 2] 0) \<and>
   map (fst (add_element_values (flipped_element_mesh [2, 2]) [2, 2] 0
               (get_element_values (flipped_element_mesh [2, 2]) [2, 2] 0
                  (\<lambda>g. int g + 5, FEDof [2, 2] 0)))) [0, 2, 3, 4] = [10, 14, 16, 9]"
proof -
  have a: "length (FEDof [2, 2] 0 :: int list) = ndof [2, 2]"
    by code_simp
  have b: "unit_signs (flipped_element_mesh [2, 2]) [2, 2] 0"
    by code_simp
  have c: "distinct (element_dofs (flipped_element_mesh [2, 2]) [2, 2] 0)"
    by code_simp
  have d: "set (element_dofs (flipped_element_mesh [2, 2]) [2, 2] 0) = {0, 1, 2, 3}"
    by code_simp
  show ?thesis
    using a b c round_trip_doubles [OF a b c, of "\<lambda>g. int g + 5"]
    by (simp add: d)
qed

text \<open>
  C8. For the Parallel strategy the per-element operations \<open>get_element_values\<close>,
  \<open>add_element_values\<close> and \<open>set_element_values\<close> leave the global array and the per-element
  buffer unchanged, for every element index; values move between the two only in
  \<open>init_values\<close>, \<open>init_zero_values\<close> and \<open>add_values\<close>.
\<close>

theorem Parallel_element_operations_no_effect:
  "Parallel_get_element_values elem dof st = st \<and>
   Parallel_add_element_values elem dof st = st \<and>
   Parallel_set_element_values elem dof st = st"
  by (simp add: Parallel_get_element_values_def Parallel_add_element_values_def
        Parallel_set_element_values_def)

text \<open>
  C9. When \<open>ElementMat_Serial::add_element_values\<close> flushes a dense element matrix, the block
  passed to the sparse-matrix sink has entry \<open>(i, j)\<close> equal to \<open>sign[i] * sign[j]\<close> times the
  assembled entry, \<open>sign[i]\<close> being the orientation sign of local degree of freedom \<open>i\<close>; the
  scaling is done in place, so the block is the caller's buffer after the call. The rows
  and columns passed are the global indices of the element.
\<close>

theorem ElementMat_add_element_values_signs:
  assumes "length elem_mat = ndof B * ndof B"
    and "length dof0 = ndof B" and "length sign0 = ndof B"
    and "b < nbasis B" and "i < get_ndof B b" and "b' < nbasis B" and "j < get_ndof B b'"
    and "ElementMat_add_element_values m B dof0 sign0 elem elem_mat = (elem_mat', call)"
  shows "dense_block call = elem_mat' \<and>
         row_indices call = element_dofs m B elem \<and>
         col_indices call = element_dofs m B elem \<and>
         elem_mat' ! FEMat_index B (i + get_dof_offset B b) (j + get_dof_offset B b') =
           of_int (get_global_dof_sign m elem b i * get_global_dof_sign m elem b' j)
             * elem_mat ! FEMat_index B (i + get_dof_offset B b) (j + get_dof_offset B b')"
proof -
  let ?sign = "map (dof_sign m elem) (local_dofs B)"
  have p: "(b, i) \<in> set (local_dofs B)" and q: "(b', j) \<in> set (local_dofs B)"
    using assms(4-7) by (simp_all add: in_local_dofs)
  have A: "elem_mat' = fold (\<lambda>i. fold (\<lambda>j. scale_entry B ?sign i j) [0..<ndof B])
                          [0..<ndof B] elem_mat"
    and c: "call = \<lparr>row_count = ndof B, row_indices = element_dofs m B elem, col_count = ndof B,
                    col_indices = element_dofs m B elem, dense_block = elem_mat'\<rparr>"
    using assms(8)
    by (auto simp: ElementMat_add_element_values_def get_dof_eq [OF assms(2,3)] Let_def
          element_dofs_def)
  have "elem_mat' ! FEMat_index B (local_index B (b, i)) (local_index B (b', j)) =
          of_int (?sign ! local_index B (b, i) * ?sign ! local_index B (b', j))
            * elem_mat ! FEMat_index B (local_index B (b, i)) (local_index B (b', j))"
    unfolding A
    using scale_rows [OF nth_local_index(2) [OF q] order_refl assms(1)] nth_local_index(2) [OF p]
    by simp
  then have "elem_mat' ! FEMat_index B (local_index B (b, i)) (local_index B (b', j)) =
          of_int (dof_sign m elem (b, i) * dof_sign m elem (b', j))
            * elem_mat ! FEMat_index B (local_index B (b, i)) (local_index B (b', j))"
    by (simp only: nth_local_index(1) [OF p] nth_local_index(1) [OF q])
  then show ?thesis
    by (simp add: c local_index_def dof_sign_def)
qed

theorem ElementMat_add_element_values_signs_witness:
  "ElementMat_add_element_values (flipped_element_mesh [2]) [2] [9, 9] [5, 5] 0 [1, 2, 3, 4 :: int]
     = ([1, - 2, - 3, 4],
        \<lparr>row_count = 2, row_indices = [0, 1], col_count = 2, col_indices = [0, 1],
         dense_block = [1, - 2, - 3, 4]\<rparr>) \<and>
   [1, - 2, - 3, 4 :: int] ! FEMat_index [2] (0 + get_dof_offset [2] 0) (1 + get_dof_offset [2] 0) =
     of_int (get_global_dof_sign (flipped_element_mesh [2]) 0 0 0
             * get_global_dof_sign (flipped_element_mesh [2]) 0 0 1)
       * [1, 2, 3, 4] ! FEMat_index [2] (0 + get_dof_offset [2] 0) (1 + get_dof_offset [2] 0)"
proof -
  have e: "ElementMat_add_element_values (flipped_element_mesh [2]) [2] [9, 9] [5, 5] 0
             [1, 2, 3, 4 :: int]
           = ([1, - 2, - 3, 4],
              \<lparr>row_count = 2, row_indices = [0, 1], col_count = 2, col_indices = [0, 1],
               dense_block = [1, - 2, - 3, 4]\<rparr>)"
    by code_simp
  have n: "ndof [2] = 2" "nbasis [2] = 1" "get_ndof [2] 0 = 2"
    by (simp_all add: ndof_def nbasis_def get_ndof_def)
  show ?thesis
    using e ElementMat_add_element_values_signs [of "[1, 2, 3, 4 :: int]" "[2]" "[9, 9]" "[5, 5]"
                0 0 0 1 "flipped_element_mesh [2]" 0, OF _ _ _ _ _ _ _ e]
    by (simp add: n)
qed

text \<open>
  C10. A newly constructed \<open>ElementVector_Serial::FEDof\<close> holds zero in all \<open>Basis::ndof\<close>
  entries before any \<open>get_element_values\<close> call: reading any local index gives 0.
\<close>

theorem FEDof_zero:
  "length (FEDof B elem) = ndof B \<and> (\<forall>i < ndof B. FEDof B elem ! i = 0)"
  by (simp add: FEDof_def)

theorem FEDof_zero_witness:
  "length (FEDof [2, 2] 0 :: int list) = 4 \<and> FEDof [2, 2] 0 ! 3 = (0 :: int)"
proof -
  have "length (FEDof [2, 2] 0 :: int list) = ndof [2, 2] \<and>
        (\<forall>i < ndof [2, 2]. FEDof [2, 2] 0 ! i = (0 :: int))"
    by (rule FEDof_zero)
  moreover have "ndof [2, 2] = 4"
    by (simp add: ndof_def)
  ultimately show ?thesis
    by auto
qed

end
